theory Spec2Isabelle
  imports Main "HOL-Library.Word"
begin

section \<open>Posts and the per-card reaction state (PostCard)\<close>

text \<open>
  A post as the backend delivers it and as the components read it:
  \<^verbatim>\<open>post.id\<close>, \<^verbatim>\<open>post.author\<close>, \<^verbatim>\<open>post.author_name\<close>, \<^verbatim>\<open>post.author_picture\<close>,
  \<^verbatim>\<open>post.created_at\<close>, \<^verbatim>\<open>post.description\<close>, \<^verbatim>\<open>post.image\<close>, \<^verbatim>\<open>post.is_liked\<close>,
  \<^verbatim>\<open>post.is_disliked\<close>, \<^verbatim>\<open>post.likes_count\<close>, \<^verbatim>\<open>post.dislikes_count\<close>.
  The field \<^verbatim>\<open>id\<close> is written \<open>id_post\<close> (\<open>id\<close> is the identity function of HOL).
  Identifiers and counters are JavaScript numbers that hold integers: \<open>int\<close>.
\<close>

record post =
  id_post :: int
  author :: int
  author_name :: string
  author_picture :: "string option"
  created_at :: string
  description :: string
  image :: "string option"
  is_liked :: bool
  is_disliked :: bool
  likes_count :: int
  dislikes_count :: int

text \<open>
  The four \<^verbatim>\<open>useState\<close> cells of one PostCard instance.
\<close>

record card =
  isLiked :: bool
  isDisliked :: bool
  likesCount :: int
  dislikesCount :: int

text \<open>
  \<^verbatim>\<open>useState(post.is_liked)\<close>, \<^verbatim>\<open>useState(post.is_disliked)\<close>,
  \<^verbatim>\<open>useState(post.likes_count)\<close>, \<^verbatim>\<open>useState(post.dislikes_count)\<close>: the initial value of
  the cells when the card is mounted.
\<close>

definition PostCard_init :: "post \<Rightarrow> card" where
  "PostCard_init p =
     \<lparr>isLiked = is_liked p, isDisliked = is_disliked p,
      likesCount = likes_count p, dislikesCount = dislikes_count p\<rparr>"

text \<open>
  The counters are JavaScript numbers: \<^verbatim>\<open>likesCount + 1\<close> and \<^verbatim>\<open>likesCount - 1\<close> are
  additions of IEEE 754 doubles. On integers the result is the exact sum rounded to the
  nearest double, ties to the even significand: \<open>ulp m\<close> is the distance between the
  doubles around a magnitude \<open>m\<close> (1 below \<open>2^53 = 9007199254740992\<close>), \<open>to_double\<close> rounds
  an integer to a double. (A sum of a finite double and 1 never overflows.)
\<close>

function ulp :: "int \<Rightarrow> int" where
  "ulp m = (if m < 9007199254740992 then 1 else 2 * ulp (m div 2))"
  by pat_completeness auto
termination
  by (relation "measure nat") auto

declare ulp.simps [simp del]

definition to_double :: "int \<Rightarrow> int" where
  "to_double n =
     (let m = \<bar>n\<bar>; u = ulp m; q = m div u; r = m mod u;
          q' = (if 2 * r < u \<or> (2 * r = u \<and> even q) then q else q + 1)
      in sgn n * (q' * u))"

definition js_add :: "int \<Rightarrow> int \<Rightarrow> int" where
  "js_add x y = to_double (x + y)"

definition js_sub :: "int \<Rightarrow> int \<Rightarrow> int" where
  "js_sub x y = to_double (x - y)"

text \<open>
  \<^verbatim>\<open>handleLike\<close>: the handler of the like button that a render of the card creates. It
  reads the cells \<open>c\<close> of that render: \<open>handleLike_call\<close> is the argument pair of its
  \<^verbatim>\<open>onLike(post.id, shouldLike)\<close> call, \<open>handleLike_cells c s\<close> is the card after its setters
  have been applied to the current cells \<open>s\<close> (a setter stores a value computed from the
  cells of the render, it does not read the current cell). One click runs the handler of
  the current render, so the cells read and the current cells are the same: \<open>handleLike\<close>.
\<close>

definition handleLike_call :: "int \<Rightarrow> card \<Rightarrow> int \<times> bool" where
  "handleLike_call pid c = (if isLiked c then (pid, False) else (pid, True))"

definition handleLike_cells :: "card \<Rightarrow> card \<Rightarrow> card" where
  "handleLike_cells c s =
     (if isLiked c then
        s\<lparr>isLiked := False, likesCount := js_sub (likesCount c) 1\<rparr>
      else if isDisliked c then
        s\<lparr>isLiked := True, isDisliked := False,
          dislikesCount := js_sub (dislikesCount c) 1, likesCount := js_add (likesCount c) 1\<rparr>
      else
        s\<lparr>isLiked := True, likesCount := js_add (likesCount c) 1\<rparr>)"

definition handleLike :: "int \<Rightarrow> card \<Rightarrow> (int \<times> bool) \<times> card" where
  "handleLike pid c = (handleLike_call pid c, handleLike_cells c c)"

text \<open>
  \<^verbatim>\<open>handleDislike\<close>: the handler of the dislike button, in the same way.
\<close>

definition handleDislike_call :: "int \<Rightarrow> card \<Rightarrow> int \<times> bool" where
  "handleDislike_call pid c = (if isDisliked c then (pid, False) else (pid, True))"

definition handleDislike_cells :: "card \<Rightarrow> card \<Rightarrow> card" where
  "handleDislike_cells c s =
     (if isDisliked c then
        s\<lparr>isDisliked := False, dislikesCount := js_sub (dislikesCount c) 1\<rparr>
      else if isLiked c then
        s\<lparr>isDisliked := True, isLiked := False,
          likesCount := js_sub (likesCount c) 1, dislikesCount := js_add (dislikesCount c) 1\<rparr>
      else
        s\<lparr>isDisliked := True, dislikesCount := js_add (dislikesCount c) 1\<rparr>)"

definition handleDislike :: "int \<Rightarrow> card \<Rightarrow> (int \<times> bool) \<times> card" where
  "handleDislike pid c = (handleDislike_call pid c, handleDislike_cells c c)"

text \<open>
  The two controls of a card, and the card after each click of a sequence of clicks
  (the starting card first).
\<close>

datatype button = LikeButton | DislikeButton

definition click :: "int \<Rightarrow> button \<Rightarrow> card \<Rightarrow> card" where
  "click pid b c =
     (case b of LikeButton \<Rightarrow> snd (handleLike pid c)
              | DislikeButton \<Rightarrow> snd (handleDislike pid c))"

fun click_trace :: "int \<Rightarrow> button list \<Rightarrow> card \<Rightarrow> card list" where
  "click_trace pid [] c = [c]"
| "click_trace pid (b # bs) c = c # click_trace pid bs (click pid b c)"

definition both_set :: "card \<Rightarrow> bool" where
  "both_set c = (isLiked c \<and> isDisliked c)"

section \<open>The Dashboard component\<close>

text \<open>
  A file picked in a file input: the handlers read \<^verbatim>\<open>file.type\<close> and \<^verbatim>\<open>file.size\<close>
  (bytes). The draft of the create form is \<^verbatim>\<open>newPost = {description, image}\<close>; the
  description is the JavaScript string of the textarea, a sequence of UTF-16 code units.
\<close>

record fileobj =
  name_file :: string
  type_file :: string
  size_file :: nat

record draft =
  description_draft :: "16 word list"
  image_draft :: "fileobj option"

text \<open>
  The \<^verbatim>\<open>useState\<close> cells of Dashboard. \<^verbatim>\<open>createError\<close> is \<open>None\<close> when the handler
  stores \<^verbatim>\<open>undefined\<close> (the first value of an empty \<^verbatim>\<open>errors\<close> object).
\<close>

record dashboard =
  posts :: "post list"
  userPosts :: "post list"
  loading :: bool
  error :: string
  newPost :: draft
  isCreatingPost :: bool
  createError :: "string option"
  previewImage :: "string option"

text \<open>
  The calls of \<^verbatim>\<open>postsAPI\<close> and of the FileReader that a handler awaits, what resumes when
  the call settles (with the \<^verbatim>\<open>posts\<close> and \<^verbatim>\<open>userPosts\<close> of the render the handler was
  created in, which the code after the \<^verbatim>\<open>await\<close> still reads), and how a call settles.
  \<open>Failed errs\<close> is a rejected promise; \<open>errs\<close> holds the values of
  \<^verbatim>\<open>err.response.data.errors\<close> when that object is there.
\<close>

datatype request =
    GetPosts
  | CreatePost draft
  | DeletePost int
  | LikePost int
  | RemoveLike int
  | DislikePost int
  | RemoveDislike int
  | ReadAsDataURL fileobj

datatype continuation =
    FetchPosts_k
  | CreatePost_k "post list" "post list"
  | DeletePost_k int "post list" "post list"
  | PostLike_k
  | PostDislike_k
  | Onloadend_k

datatype outcome =
    Posts "post list"
  | Created post
  | Done
  | DataURL string
  | Failed "string list option"

text \<open>
  The two places a PostCard is rendered: the feed of Dashboard (\<^verbatim>\<open>posts.map\<close>) and the
  "My Posts" section of Profile (\<^verbatim>\<open>userPosts\<close>). A card instance is identified by the place
  and its React key \<^verbatim>\<open>post.id\<close>.
\<close>

datatype view = Feed | MyPosts

text \<open>
  The application: the Dashboard cells, the state of every mounted PostCard, the calls in
  flight (oldest first) and the messages shown with \<^verbatim>\<open>alert\<close>.
\<close>

record app =
  dash :: dashboard
  cards :: "view \<times> int \<Rightarrow> card option"
  pending :: "(request \<times> continuation) list"
  alerts :: "string list"

definition init :: app where
  "init =
     \<lparr>dash =
        \<lparr>posts = [], userPosts = [], loading = True, error = [],
         newPost = \<lparr>description_draft = [], image_draft = None\<rparr>,
         isCreatingPost = False, createError = Some [], previewImage = None\<rparr>,
      cards = (\<lambda>_. None), pending = [], alerts = []\<rparr>"

text \<open>
  What each place renders: the feed shows a card per element of \<^verbatim>\<open>posts\<close> unless
  \<^verbatim>\<open>loading\<close>; Profile shows a card per element of \<^verbatim>\<open>userPosts\<close>. A card that stays
  keeps its cells; a card that appears starts from \<open>PostCard_init\<close> of its post; a card whose
  key is no longer rendered is gone.
\<close>

definition shown :: "dashboard \<Rightarrow> view \<Rightarrow> post list" where
  "shown d v = (case v of Feed \<Rightarrow> (if loading d then [] else posts d) | MyPosts \<Rightarrow> userPosts d)"

definition render :: "dashboard \<Rightarrow> (view \<times> int \<Rightarrow> card option) \<Rightarrow> view \<times> int \<Rightarrow> card option" where
  "render d cs = (\<lambda>(v, k).
     (case find (\<lambda>p. id_post p = k) (shown d v) of
        None \<Rightarrow> None
      | Some p \<Rightarrow> (case cs (v, k) of Some c \<Rightarrow> Some c | None \<Rightarrow> Some (PostCard_init p))))"

subsection \<open>fetchPosts\<close>

definition fetchPosts :: "app \<Rightarrow> app" where
  "fetchPosts a =
     a\<lparr>dash := (dash a)\<lparr>loading := True, error := []\<rparr>,
       pending := pending a @ [(GetPosts, FetchPosts_k)]\<rparr>"

definition fetchPosts_resume :: "int \<Rightarrow> outcome \<Rightarrow> app \<Rightarrow> app option" where
  "fetchPosts_resume uid r a =
     (case r of
        Posts ps \<Rightarrow>
          Some (a\<lparr>dash := (dash a)
            \<lparr>posts := ps, userPosts := filter (\<lambda>p. author p = uid) ps, loading := False\<rparr>\<rparr>)
      | Failed errs \<Rightarrow>
          Some (a\<lparr>dash := (dash a)
            \<lparr>error := ''Failed to load posts. Please try again.'', loading := False\<rparr>\<rparr>)
      | _ \<Rightarrow> None)"

subsection \<open>The create form\<close>

text \<open>
  \<^verbatim>\<open>handlePostInputChange\<close> is wired to the one textarea, whose name is
  \<^verbatim>\<open>description\<close>.
\<close>

definition handlePostInputChange :: "16 word list \<Rightarrow> app \<Rightarrow> app" where
  "handlePostInputChange v a =
     a\<lparr>dash := (dash a)\<lparr>newPost := (newPost (dash a))\<lparr>description_draft := v\<rparr>\<rparr>\<rparr>"

definition validTypes :: "string list" where
  "validTypes = [''image/jpeg'', ''image/png'', ''image/gif'']"

definition handlePostImageChange :: "fileobj option \<Rightarrow> app \<Rightarrow> app" where
  "handlePostImageChange fo a =
     (case fo of
        None \<Rightarrow> a
      | Some f \<Rightarrow>
          if type_file f \<notin> set validTypes then
            a\<lparr>dash := (dash a)
              \<lparr>createError := Some ''Invalid image format. Use JPG, PNG, or GIF.''\<rparr>\<rparr>
          else if size_file f > 10 * 1024 * 1024 then
            a\<lparr>dash := (dash a)\<lparr>createError := Some ''Image must be less than 10MB''\<rparr>\<rparr>
          else
            a\<lparr>dash := (dash a)\<lparr>newPost := (newPost (dash a))\<lparr>image_draft := Some f\<rparr>\<rparr>,
              pending := pending a @ [(ReadAsDataURL f, Onloadend_k)]\<rparr>)"

definition onloadend_resume :: "outcome \<Rightarrow> app \<Rightarrow> app option" where
  "onloadend_resume r a =
     (case r of
        DataURL u \<Rightarrow> Some (a\<lparr>dash := (dash a)\<lparr>previewImage := Some u\<rparr>\<rparr>)
      | _ \<Rightarrow> None)"

text \<open>The button that removes the chosen image.\<close>

definition removeImage :: "app \<Rightarrow> app" where
  "removeImage a =
     a\<lparr>dash := (dash a)
       \<lparr>previewImage := None, newPost := (newPost (dash a))\<lparr>image_draft := None\<rparr>\<rparr>\<rparr>"

text \<open>
  \<^verbatim>\<open>String.prototype.trim\<close> removes the white space and line terminator code units
  of ECMAScript from both ends: TAB, LF, VT, FF, CR, SPACE, NO-BREAK SPACE, U+1680,
  U+2000 to U+200A, U+2028, U+2029, U+202F, U+205F, U+3000 and U+FEFF.
\<close>

definition is_space :: "16 word \<Rightarrow> bool" where
  "is_space u =
     (u \<in> set [0x0009, 0x000A, 0x000B, 0x000C, 0x000D, 0x0020, 0x00A0, 0x1680,
        0x2000, 0x2001, 0x2002, 0x2003, 0x2004, 0x2005, 0x2006, 0x2007, 0x2008, 0x2009,
        0x200A, 0x2028, 0x2029, 0x202F, 0x205F, 0x3000, 0xFEFF])"

definition trim :: "16 word list \<Rightarrow> 16 word list" where
  "trim s = rev (dropWhile is_space (rev (dropWhile is_space s)))"

subsection \<open>handleCreatePost\<close>

definition handleCreatePost :: "app \<Rightarrow> app" where
  "handleCreatePost a =
     (if trim (description_draft (newPost (dash a))) = [] then
        a\<lparr>dash := (dash a)\<lparr>createError := Some ''Post description is required''\<rparr>\<rparr>
      else
        a\<lparr>dash := (dash a)\<lparr>isCreatingPost := True, createError := Some []\<rparr>,
          pending := pending a @
            [(CreatePost (newPost (dash a)),
              CreatePost_k (posts (dash a)) (userPosts (dash a)))]\<rparr>)"

definition handleCreatePost_resume ::
  "int \<Rightarrow> post list \<Rightarrow> post list \<Rightarrow> outcome \<Rightarrow> app \<Rightarrow> app option" where
  "handleCreatePost_resume uid ps ups r a =
     (case r of
        Created p \<Rightarrow>
          Some (a\<lparr>dash := (dash a)
            \<lparr>posts := p # ps,
             userPosts := (if author p = uid then p # ups else userPosts (dash a)),
             newPost := \<lparr>description_draft = [], image_draft = None\<rparr>,
             previewImage := None,
             isCreatingPost := False\<rparr>\<rparr>)
      | Failed errs \<Rightarrow>
          Some (a\<lparr>dash := (dash a)
            \<lparr>createError :=
               (case errs of
                  Some [] \<Rightarrow> None
                | Some (e # _) \<Rightarrow> Some e
                | None \<Rightarrow> Some ''Failed to create post. Please try again.''),
             isCreatingPost := False\<rparr>\<rparr>)
      | _ \<Rightarrow> None)"

subsection \<open>handleDeletePost\<close>

text \<open>The second argument is the answer to \<^verbatim>\<open>window.confirm\<close>.\<close>

definition handleDeletePost :: "int \<Rightarrow> bool \<Rightarrow> app \<Rightarrow> app" where
  "handleDeletePost postId confirmed a =
     (if confirmed then
        a\<lparr>pending := pending a @
            [(DeletePost postId, DeletePost_k postId (posts (dash a)) (userPosts (dash a)))]\<rparr>
      else a)"

definition handleDeletePost_resume ::
  "int \<Rightarrow> post list \<Rightarrow> post list \<Rightarrow> outcome \<Rightarrow> app \<Rightarrow> app option" where
  "handleDeletePost_resume postId ps ups r a =
     (case r of
        Done \<Rightarrow>
          Some (a\<lparr>dash := (dash a)
            \<lparr>posts := filter (\<lambda>p. id_post p \<noteq> postId) ps,
             userPosts := filter (\<lambda>p. id_post p \<noteq> postId) ups\<rparr>\<rparr>)
      | Failed errs \<Rightarrow> Some (a\<lparr>alerts := alerts a @ [''Failed to delete post'']\<rparr>)
      | _ \<Rightarrow> None)"

subsection \<open>handlePostLike and handlePostDislike\<close>

definition handlePostLike :: "int \<Rightarrow> bool \<Rightarrow> app \<Rightarrow> app" where
  "handlePostLike postId shouldLike a =
     a\<lparr>pending := pending a @
         [((if shouldLike then LikePost postId else RemoveLike postId), PostLike_k)]\<rparr>"

definition handlePostLike_resume :: "outcome \<Rightarrow> app \<Rightarrow> app option" where
  "handlePostLike_resume r a =
     (case r of
        Done \<Rightarrow> Some a
      | Failed errs \<Rightarrow> Some (a\<lparr>alerts := alerts a @ [''Failed to update like'']\<rparr>)
      | _ \<Rightarrow> None)"

definition handlePostDislike :: "int \<Rightarrow> bool \<Rightarrow> app \<Rightarrow> app" where
  "handlePostDislike postId shouldDislike a =
     a\<lparr>pending := pending a @
         [((if shouldDislike then DislikePost postId else RemoveDislike postId), PostDislike_k)]\<rparr>"

definition handlePostDislike_resume :: "outcome \<Rightarrow> app \<Rightarrow> app option" where
  "handlePostDislike_resume r a =
     (case r of
        Done \<Rightarrow> Some a
      | Failed errs \<Rightarrow> Some (a\<lparr>alerts := alerts a @ [''Failed to update dislike'']\<rparr>)
      | _ \<Rightarrow> None)"

subsection \<open>A click on a button of a mounted card\<close>

text \<open>
  The handler first calls \<^verbatim>\<open>onLike\<close> / \<^verbatim>\<open>onDislike\<close> (Dashboard's handlePostLike /
  handlePostDislike, which run up to their \<^verbatim>\<open>await\<close>), then sets the card's own cells.
\<close>

definition press :: "view \<Rightarrow> int \<Rightarrow> button \<Rightarrow> app \<Rightarrow> app option" where
  "press v k b a =
     (case cards a (v, k) of
        None \<Rightarrow> None
      | Some c \<Rightarrow>
          (case b of
             LikeButton \<Rightarrow>
               (case handleLike k c of
                  ((postId, shouldLike), c') \<Rightarrow>
                    Some ((handlePostLike postId shouldLike a)
                            \<lparr>cards := (cards a)((v, k) \<mapsto> c')\<rparr>))
           | DislikeButton \<Rightarrow>
               (case handleDislike k c of
                  ((postId, shouldDislike), c') \<Rightarrow>
                    Some ((handlePostDislike postId shouldDislike a)
                            \<lparr>cards := (cards a)((v, k) \<mapsto> c')\<rparr>))))"

subsection \<open>Events of the event loop\<close>

text \<open>
  One event is one run of a handler up to its \<^verbatim>\<open>await\<close>, or the code after an
  \<^verbatim>\<open>await\<close> once the call in flight at position \<open>i\<close> has settled. A call settles with an
  outcome of its own kind; an event that cannot happen gives \<open>None\<close>. After every event
  React renders again.
\<close>

datatype event =
    Mount
  | Input "16 word list"
  | SelectImage "fileobj option"
  | RemoveImage
  | Submit
  | Delete int bool
  | Press view int button
  | Settle nat outcome

definition resume :: "int \<Rightarrow> continuation \<Rightarrow> outcome \<Rightarrow> app \<Rightarrow> app option" where
  "resume uid k r a =
     (case k of
        FetchPosts_k \<Rightarrow> fetchPosts_resume uid r a
      | CreatePost_k ps ups \<Rightarrow> handleCreatePost_resume uid ps ups r a
      | DeletePost_k postId ps ups \<Rightarrow> handleDeletePost_resume postId ps ups r a
      | PostLike_k \<Rightarrow> handlePostLike_resume r a
      | PostDislike_k \<Rightarrow> handlePostDislike_resume r a
      | Onloadend_k \<Rightarrow> onloadend_resume r a)"

definition handle :: "int \<Rightarrow> event \<Rightarrow> app \<Rightarrow> app option" where
  "handle uid e a =
     (case e of
        Mount \<Rightarrow> Some (fetchPosts a)
      | Input v \<Rightarrow> Some (handlePostInputChange v a)
      | SelectImage fo \<Rightarrow> Some (handlePostImageChange fo a)
      | RemoveImage \<Rightarrow> Some (removeImage a)
      | Submit \<Rightarrow> Some (handleCreatePost a)
      | Delete postId confirmed \<Rightarrow> Some (handleDeletePost postId confirmed a)
      | Press v k b \<Rightarrow> press v k b a
      | Settle i r \<Rightarrow>
          (if i < length (pending a) then
             resume uid (snd (pending a ! i)) r
               (a\<lparr>pending := take i (pending a) @ drop (Suc i) (pending a)\<rparr>)
           else None))"

definition step :: "int \<Rightarrow> event \<Rightarrow> app \<Rightarrow> app option" where
  "step uid e a =
     (case handle uid e a of
        None \<Rightarrow> None
      | Some a' \<Rightarrow> Some (a'\<lparr>cards := render (dash a') (cards a')\<rparr>))"

fun run :: "int \<Rightarrow> event list \<Rightarrow> app \<Rightarrow> app option" where
  "run uid [] a = Some a"
| "run uid (e # es) a = (case step uid e a of None \<Rightarrow> None | Some a' \<Rightarrow> run uid es a')"

text \<open>
  A handler run to completion: the handler of the event, and, when it has issued a call,
  the settling of that call (the last one in flight) with the given outcome before
  anything else happens.
\<close>

definition complete :: "int \<Rightarrow> event \<Rightarrow> outcome \<Rightarrow> app \<Rightarrow> app option" where
  "complete uid e r a =
     (case step uid e a of
        None \<Rightarrow> None
      | Some b \<Rightarrow>
          if length (pending b) = Suc (length (pending a))
          then step uid (Settle (length (pending a)) r) b
          else Some b)"

fun complete_all :: "int \<Rightarrow> (event \<times> outcome) list \<Rightarrow> app \<Rightarrow> app option" where
  "complete_all uid [] a = Some a"
| "complete_all uid ((e, r) # ers) a =
     (case complete uid e r a of None \<Rightarrow> None | Some a' \<Rightarrow> complete_all uid ers a')"

text \<open>
  The backend answers a create call with a post of the viewer who made the call.
\<close>

fun created_by_viewer :: "int \<Rightarrow> event \<Rightarrow> bool" where
  "created_by_viewer uid (Settle i (Created p)) = (author p = uid)"
| "created_by_viewer uid e = True"

text \<open>
  The lists a continuation has captured are a feed and its own-posts list; a state is
  consistent when its two lists are, and those of every continuation in flight.
\<close>

fun closure_ok :: "int \<Rightarrow> continuation \<Rightarrow> bool" where
  "closure_ok uid (CreatePost_k ps ups) = (ups = filter (\<lambda>p. author p = uid) ps)"
| "closure_ok uid (DeletePost_k postId ps ups) = (ups = filter (\<lambda>p. author p = uid) ps)"
| "closure_ok uid k = True"

definition consistent :: "int \<Rightarrow> app \<Rightarrow> bool" where
  "consistent uid a =
     (userPosts (dash a) = filter (\<lambda>p. author p = uid) (posts (dash a))
      \<and> list_all (\<lambda>rk. closure_ok uid (snd rk)) (pending a))"

text \<open>Every mounted card is the card of a post its place shows, and conversely.\<close>

definition rendered :: "app \<Rightarrow> bool" where
  "rendered a = (render (dash a) (cards a) = cards a)"

text \<open>
  The call a click on a button of a card issues, with what resumes when it settles.
\<close>

definition react_request :: "int \<Rightarrow> button \<Rightarrow> card \<Rightarrow> request \<times> continuation" where
  "react_request k b c =
     (case b of
        LikeButton \<Rightarrow> ((if isLiked c then RemoveLike k else LikePost k), PostLike_k)
      | DislikeButton \<Rightarrow> ((if isDisliked c then RemoveDislike k else DislikePost k), PostDislike_k))"

text \<open>
  Auxiliary notions for the proofs. \<open>snapshot a k\<close>: the continuation \<open>k\<close> has captured the
  lists of the state \<open>a\<close>, as the continuation of a call issued in \<open>a\<close> has.
  \<open>starts a b\<close>: \<open>b\<close> is \<open>a\<close> after a handler has run up to its \<^verbatim>\<open>await\<close>: same lists, at
  most one more call in flight. \<open>quiet uid a\<close>: nothing is in flight and the own-posts list
  is the viewer's part of the feed.
\<close>

definition snapshot :: "app \<Rightarrow> continuation \<Rightarrow> bool" where
  "snapshot a k =
     (k = FetchPosts_k \<or> k = CreatePost_k (posts (dash a)) (userPosts (dash a))
      \<or> (\<exists>j. k = DeletePost_k j (posts (dash a)) (userPosts (dash a)))
      \<or> k = PostLike_k \<or> k = PostDislike_k \<or> k = Onloadend_k)"

definition starts :: "app \<Rightarrow> app \<Rightarrow> bool" where
  "starts a b =
     (posts (dash b) = posts (dash a) \<and> userPosts (dash b) = userPosts (dash a)
      \<and> (pending b = pending a \<or> (\<exists>rq k. pending b = pending a @ [(rq, k)] \<and> snapshot a k)))"

definition quiet :: "int \<Rightarrow> app \<Rightarrow> bool" where
  "quiet uid a =
     (pending a = [] \<and> userPosts (dash a) = filter (\<lambda>p. author p = uid) (posts (dash a)))"

section \<open>Upload staging in Signup and Profile\<close>

text \<open>
  \<^verbatim>\<open>formData\<close> and \<^verbatim>\<open>editData\<close> are objects updated with the spread syntax
  (\<^verbatim>\<open>{...prev, profile_picture: file}\<close>), \<^verbatim>\<open>errors\<close> is an object from field names to
  messages: maps from property names. The records hold the cells that the handlers read
  or write; the second component of a handler's result is the file handed to
  \<^verbatim>\<open>reader.readAsDataURL\<close>, whose \<^verbatim>\<open>onloadend\<close> sets the preview later.
\<close>

datatype jsval = Null | Text string | File fileobj

record signup =
  formData :: "string \<Rightarrow> jsval option"
  errors :: "string \<Rightarrow> string option"

definition handleFileChange :: "fileobj option \<Rightarrow> signup \<Rightarrow> signup \<times> fileobj option" where
  "handleFileChange fo s =
     (case fo of
        None \<Rightarrow> (s, None)
      | Some f \<Rightarrow>
          if type_file f \<notin> set validTypes then
            (s\<lparr>errors := (errors s)(''profile_picture'' \<mapsto>
                 ''Please upload a valid image file (JPG, PNG, GIF)'')\<rparr>, None)
          else if size_file f > 5 * 1024 * 1024 then
            (s\<lparr>errors := (errors s)(''profile_picture'' \<mapsto>
                 ''File size must be less than 5MB'')\<rparr>, None)
          else
            (s\<lparr>formData := (formData s)(''profile_picture'' \<mapsto> File f)\<rparr>, Some f))"

record profile =
  editData :: "string \<Rightarrow> jsval option"
  errors_profile :: "string \<Rightarrow> string option"

definition handlePictureChange :: "fileobj option \<Rightarrow> profile \<Rightarrow> profile \<times> fileobj option" where
  "handlePictureChange fo s =
     (case fo of
        None \<Rightarrow> (s, None)
      | Some f \<Rightarrow>
          if type_file f \<notin> set validTypes then
            (s\<lparr>errors_profile := [''profile_picture'' \<mapsto> ''Invalid file type'']\<rparr>, None)
          else if size_file f > 5 * 1024 * 1024 then
            (s\<lparr>errors_profile := [''profile_picture'' \<mapsto> ''File too large (max 5MB)'']\<rparr>,
             None)
          else
            (s\<lparr>editData := (editData s)(''profile_picture'' \<mapsto> File f)\<rparr>, Some f))"

section \<open>Fixtures for the scenarios\<close>

definition post_1 :: post where
  "post_1 =
     \<lparr>id_post = 1, author = 5, author_name = ''Ann'', author_picture = None,
      created_at = ''2024-01-02T10:00:00Z'', description = ''first'', image = None,
      is_liked = False, is_disliked = False, likes_count = 3, dislikes_count = 1\<rparr>"

definition post_2 :: post where
  "post_2 =
     \<lparr>id_post = 2, author = 9, author_name = ''Bob'', author_picture = None,
      created_at = ''2024-01-03T10:00:00Z'', description = ''second'', image = None,
      is_liked = False, is_disliked = False, likes_count = 0, dislikes_count = 0\<rparr>"

definition post_42 :: post where
  "post_42 =
     \<lparr>id_post = 42, author = 5, author_name = ''Ann'', author_picture = None,
      created_at = ''2024-01-04T10:00:00Z'', description = ''hello'', image = None,
      is_liked = False, is_disliked = False, likes_count = 0, dislikes_count = 0\<rparr>"

definition png_file :: fileobj where
  "png_file = \<lparr>name_file = ''cat.png'', type_file = ''image/png'', size_file = 5 * 1024 * 1024\<rparr>"

definition pdf_file :: fileobj where
  "pdf_file = \<lparr>name_file = ''cv.pdf'', type_file = ''application/pdf'', size_file = 1000\<rparr>"

definition jpeg_file :: fileobj where
  "jpeg_file =
     \<lparr>name_file = ''dog.jpg'', type_file = ''image/jpeg'', size_file = 6 * 1024 * 1024\<rparr>"

definition gif_file :: fileobj where
  "gif_file =
     \<lparr>name_file = ''big.gif'', type_file = ''image/gif'', size_file = 10 * 1024 * 1024 + 1\<rparr>"

text \<open>
  The application of viewer 5 once the first fetch has answered with the two posts; the
  code units of \<^verbatim>\<open>hello\<close> and of a lone no-break space; the initial application with
  \<^verbatim>\<open>hello\<close> typed into the form.
\<close>

definition loaded :: app where
  "loaded =
     \<lparr>dash =
        \<lparr>posts = [post_1, post_2], userPosts = [post_1], loading = False, error = [],
         newPost = \<lparr>description_draft = [], image_draft = None\<rparr>,
         isCreatingPost = False, createError = Some [], previewImage = None\<rparr>,
      cards = [(Feed, 1) \<mapsto> PostCard_init post_1, (Feed, 2) \<mapsto> PostCard_init post_2,
               (MyPosts, 1) \<mapsto> PostCard_init post_1],
      pending = [], alerts = []\<rparr>"

definition hello :: "16 word list" where
  "hello = [0x68, 0x65, 0x6C, 0x6C, 0x6F]"

definition nbsp :: "16 word list" where
  "nbsp = [0x00A0]"

definition drafted :: app where
  "drafted = handlePostInputChange hello init"

section \<open>JavaScript numbers on integers\<close>

lemma ulp_small: "m < 9007199254740992 \<Longrightarrow> ulp m = 1"
  by (subst ulp.simps) simp

lemma to_double_ulp_1: "ulp \<bar>n\<bar> = 1 \<Longrightarrow> to_double n = sgn n * \<bar>n\<bar>"
  unfolding to_double_def Let_def by simp

lemma to_double_small: "\<bar>n\<bar> < 9007199254740992 \<Longrightarrow> to_double n = n"
proof -
  assume "\<bar>n\<bar> < 9007199254740992"
  then have "ulp \<bar>n\<bar> = 1"
    by (rule ulp_small)
  then have "to_double n = sgn n * \<bar>n\<bar>"
    by (rule to_double_ulp_1)
  also have "\<dots> = n"
    by (simp add: sgn_if)
  finally show ?thesis .
qed

lemma to_double_2_53: "to_double 9007199254740992 = 9007199254740992"
  by code_simp

lemma to_double_minus_2_53: "to_double (- 9007199254740992) = - 9007199254740992"
  by code_simp

lemma to_double_exact: "\<bar>n\<bar> \<le> 9007199254740992 \<Longrightarrow> to_double n = n"
proof -
  assume a: "\<bar>n\<bar> \<le> 9007199254740992"
  consider "\<bar>n\<bar> < 9007199254740992" | "n = 9007199254740992" | "n = - 9007199254740992"
    using a by linarith
  then show ?thesis
  proof cases
    case 1
    then show ?thesis by (rule to_double_small)
  next
    case 2
    then show ?thesis by (simp only: to_double_2_53)
  next
    case 3
    then show ?thesis by (simp only: to_double_minus_2_53)
  qed
qed

lemma js_add_exact: "\<bar>x + y\<bar> \<le> 9007199254740992 \<Longrightarrow> js_add x y = x + y"
  by (simp add: js_add_def to_double_exact)

lemma js_sub_exact: "\<bar>x - y\<bar> \<le> 9007199254740992 \<Longrightarrow> js_sub x y = x - y"
  by (simp add: js_sub_def to_double_exact)

text \<open>
  Beyond \<open>2^53\<close> adding 1 is not exact: \<open>2^53 + 1\<close> is \<open>2^53\<close>, and
  \<open>(2^53 + 2) + 1\<close> is \<open>2^53 + 4\<close>.
\<close>

lemma js_add_rounds:
  "js_add 9007199254740992 1 = 9007199254740992
   \<and> js_add 9007199254740994 1 = 9007199254740996
   \<and> js_sub (- 9007199254740992) 1 = - 9007199254740992"
  by code_simp

lemmas handleLike_defs = handleLike_def handleLike_call_def handleLike_cells_def
lemmas handleDislike_defs = handleDislike_def handleDislike_call_def handleDislike_cells_def

section \<open>Reaction toggling: properties\<close>

lemma click_not_both: "\<not> both_set (click pid b c)"
  by (cases b) (simp_all add: click_def both_set_def handleLike_defs handleDislike_defs)

lemma click_trace_not_both:
  "\<not> both_set c \<Longrightarrow> c' \<in> set (click_trace pid bs c) \<Longrightarrow> \<not> both_set c'"
proof (induction bs arbitrary: c)
  case Nil
  then show ?case by simp
next
  case (Cons b bs)
  from Cons.prems(2) have "c' = c \<or> c' \<in> set (click_trace pid bs (click pid b c))"
    by simp
  then show ?case
  proof
    assume "c' = c"
    with Cons.prems(1) show ?thesis by simp
  next
    assume "c' \<in> set (click_trace pid bs (click pid b c))"
    with Cons.IH [OF click_not_both] show ?thesis .
  qed
qed

text \<open>
  Claim C1. For a card whose like and dislike flags are not both true, every card state
  reached along any sequence of clicks on the like and dislike buttons (each click sets the
  reaction when it is clear and clears it when it is set) has the two flags not both true;
  and the click that sets one polarity clears the other in the same state change: a like
  click on a card that is not liked gives a card that is liked and not disliked, a dislike
  click on a card that is not disliked gives a card that is disliked and not liked.
\<close>

theorem C1_flags_never_both:
  assumes "\<not> (isLiked c \<and> isDisliked c)"
  shows "(\<forall>c' \<in> set (click_trace pid bs c). \<not> (isLiked c' \<and> isDisliked c'))
       \<and> (\<not> isLiked c \<longrightarrow>
            isLiked (snd (handleLike pid c)) \<and> \<not> isDisliked (snd (handleLike pid c)))
       \<and> (\<not> isDisliked c \<longrightarrow>
            isDisliked (snd (handleDislike pid c)) \<and> \<not> isLiked (snd (handleDislike pid c)))"
proof -
  have start: "\<not> both_set c"
    using assms by (simp add: both_set_def)
  have "\<forall>c' \<in> set (click_trace pid bs c). \<not> both_set c'"
    using click_trace_not_both [OF start] by blast
  then have trace: "\<forall>c' \<in> set (click_trace pid bs c). \<not> (isLiked c' \<and> isDisliked c')"
    by (simp add: both_set_def)
  have like: "\<not> isLiked c \<longrightarrow>
      isLiked (snd (handleLike pid c)) \<and> \<not> isDisliked (snd (handleLike pid c))"
    by (simp add: handleLike_defs)
  have dislike: "\<not> isDisliked c \<longrightarrow>
      isDisliked (snd (handleDislike pid c)) \<and> \<not> isLiked (snd (handleDislike pid c))"
    by (simp add: handleDislike_defs)
  from trace like dislike show ?thesis by blast
qed

theorem C1_flags_never_both_witness:
  "\<not> (isLiked \<lparr>isLiked = False, isDisliked = True, likesCount = 3, dislikesCount = 1\<rparr>
      \<and> isDisliked \<lparr>isLiked = False, isDisliked = True, likesCount = 3, dislikesCount = 1\<rparr>)
   \<and> list_all (\<lambda>c'. \<not> (isLiked c' \<and> isDisliked c'))
        (click_trace 7 [LikeButton, DislikeButton, DislikeButton, LikeButton]
          \<lparr>isLiked = False, isDisliked = True, likesCount = 3, dislikesCount = 1\<rparr>)
   \<and> isLiked (snd (handleLike 7
          \<lparr>isLiked = False, isDisliked = True, likesCount = 3, dislikesCount = 1\<rparr>))
   \<and> \<not> isDisliked (snd (handleLike 7
          \<lparr>isLiked = False, isDisliked = True, likesCount = 3, dislikesCount = 1\<rparr>))
   \<and> isDisliked (snd (handleDislike 7
          \<lparr>isLiked = True, isDisliked = False, likesCount = 4, dislikesCount = 0\<rparr>))
   \<and> \<not> isLiked (snd (handleDislike 7
          \<lparr>isLiked = True, isDisliked = False, likesCount = 4, dislikesCount = 0\<rparr>))"
  using C1_flags_never_both
    [of "\<lparr>isLiked = False, isDisliked = True, likesCount = 3, dislikesCount = 1\<rparr>" 7
        "[LikeButton, DislikeButton, DislikeButton, LikeButton]"]
    C1_flags_never_both
    [of "\<lparr>isLiked = True, isDisliked = False, likesCount = 4, dislikesCount = 0\<rparr>" 7 "[]"]
  by (simp add: list_all_iff)

text \<open>
  Claim C2. On a card in state Disliked (not liked, disliked) the like click sends
  \<^verbatim>\<open>onLike(post.id, true)\<close> and gives state Liked with the like counter
  \<^verbatim>\<open>likesCount + 1\<close> and the dislike counter \<^verbatim>\<open>dislikesCount - 1\<close> in the arithmetic of
  JavaScript numbers; for counters that are safe integers (magnitude at most
  \<open>2^53 - 1\<close>) these are exactly one more and one less. From likesCount 3, dislikesCount 1,
  not liked, disliked the result is likesCount 4, dislikesCount 0, liked, not disliked.
\<close>

theorem C2_disliked_set_liked:
  assumes "\<not> isLiked c" and "isDisliked c"
  shows "handleLike pid c =
           ((pid, True),
            c\<lparr>isLiked := True, isDisliked := False,
              likesCount := js_add (likesCount c) 1,
              dislikesCount := js_sub (dislikesCount c) 1\<rparr>)
       \<and> (\<bar>likesCount c\<bar> \<le> 9007199254740991 \<and> \<bar>dislikesCount c\<bar> \<le> 9007199254740991 \<longrightarrow>
            handleLike pid c =
              ((pid, True),
               c\<lparr>isLiked := True, isDisliked := False,
                 likesCount := likesCount c + 1, dislikesCount := dislikesCount c - 1\<rparr>))
       \<and> snd (handleLike pid
            \<lparr>isLiked = False, isDisliked = True, likesCount = 3, dislikesCount = 1\<rparr>)
         = \<lparr>isLiked = True, isDisliked = False, likesCount = 4, dislikesCount = 0\<rparr>"
proof -
  have general: "handleLike pid c =
           ((pid, True),
            c\<lparr>isLiked := True, isDisliked := False,
              likesCount := js_add (likesCount c) 1,
              dislikesCount := js_sub (dislikesCount c) 1\<rparr>)"
    using assms by (simp add: handleLike_defs)
  have safe: "js_add (likesCount c) 1 = likesCount c + 1
      \<and> js_sub (dislikesCount c) 1 = dislikesCount c - 1"
    if "\<bar>likesCount c\<bar> \<le> 9007199254740991" and "\<bar>dislikesCount c\<bar> \<le> 9007199254740991"
  proof -
    from that have "\<bar>likesCount c + 1\<bar> \<le> 9007199254740992"
      and "\<bar>dislikesCount c - 1\<bar> \<le> 9007199254740992"
      by linarith+
    then show ?thesis
      by (simp add: js_add_exact js_sub_exact)
  qed
  have scenario: "snd (handleLike pid
            \<lparr>isLiked = False, isDisliked = True, likesCount = 3, dislikesCount = 1\<rparr>)
         = \<lparr>isLiked = True, isDisliked = False, likesCount = 4, dislikesCount = 0\<rparr>"
    by (simp add: handleLike_defs js_add_exact js_sub_exact)
  from general safe scenario show ?thesis
    by simp
qed

theorem C2_disliked_set_liked_witness:
  "\<not> isLiked \<lparr>isLiked = False, isDisliked = True, likesCount = 3, dislikesCount = 1\<rparr>
   \<and> isDisliked \<lparr>isLiked = False, isDisliked = True, likesCount = 3, dislikesCount = 1\<rparr>
   \<and> \<bar>likesCount \<lparr>isLiked = False, isDisliked = True, likesCount = 3, dislikesCount = 1\<rparr>\<bar>
       \<le> 9007199254740991
   \<and> \<bar>dislikesCount \<lparr>isLiked = False, isDisliked = True, likesCount = 3, dislikesCount = 1\<rparr>\<bar>
       \<le> 9007199254740991
   \<and> handleLike 42 \<lparr>isLiked = False, isDisliked = True, likesCount = 3, dislikesCount = 1\<rparr>
       = ((42, True), \<lparr>isLiked = True, isDisliked = False, likesCount = 4, dislikesCount = 0\<rparr>)"
  using C2_disliked_set_liked
    [of "\<lparr>isLiked = False, isDisliked = True, likesCount = 3, dislikesCount = 1\<rparr>" 42]
  by (simp add: js_add_exact js_sub_exact)

section \<open>The event loop: invariants\<close>

lemma render_idem: "render d (render d cs) = render d cs"
  by (auto simp: render_def fun_eq_iff split: option.splits)

lemma consistent_init: "consistent uid init"
  by (simp add: consistent_def init_def)

lemma fetchPosts_resume_lists:
  assumes "fetchPosts_resume uid r a = Some a'"
  shows "pending a' = pending a
       \<and> (userPosts (dash a') = filter (\<lambda>p. author p = uid) (posts (dash a'))
          \<or> (posts (dash a') = posts (dash a) \<and> userPosts (dash a') = userPosts (dash a)))"
  using assms by (cases r) (auto simp: fetchPosts_resume_def)

lemma handleCreatePost_resume_lists:
  assumes "handleCreatePost_resume uid ps ups r a = Some a'"
  shows "pending a' = pending a
       \<and> ((\<exists>p. r = Created p \<and> posts (dash a') = p # ps
              \<and> userPosts (dash a') = (if author p = uid then p # ups else userPosts (dash a)))
          \<or> (posts (dash a') = posts (dash a) \<and> userPosts (dash a') = userPosts (dash a)))"
  using assms by (cases r) (auto simp: handleCreatePost_resume_def)

lemma handleDeletePost_resume_lists:
  assumes "handleDeletePost_resume k ps ups r a = Some a'"
  shows "pending a' = pending a
       \<and> ((posts (dash a') = filter (\<lambda>p. id_post p \<noteq> k) ps
              \<and> userPosts (dash a') = filter (\<lambda>p. id_post p \<noteq> k) ups)
          \<or> (posts (dash a') = posts (dash a) \<and> userPosts (dash a') = userPosts (dash a)))"
  using assms by (cases r) (auto simp: handleDeletePost_resume_def)

lemma handlePostLike_resume_lists:
  assumes "handlePostLike_resume r a = Some a'"
  shows "pending a' = pending a \<and> dash a' = dash a"
  using assms by (cases r) (auto simp: handlePostLike_resume_def)

lemma handlePostDislike_resume_lists:
  assumes "handlePostDislike_resume r a = Some a'"
  shows "pending a' = pending a \<and> dash a' = dash a"
  using assms by (cases r) (auto simp: handlePostDislike_resume_def)

lemma onloadend_resume_lists:
  assumes "onloadend_resume r a = Some a'"
  shows "pending a' = pending a \<and> posts (dash a') = posts (dash a)
       \<and> userPosts (dash a') = userPosts (dash a)"
  using assms by (cases r) (auto simp: onloadend_resume_def)

lemma resume_consistent:
  assumes k: "closure_ok uid k" and a: "consistent uid a"
    and r: "resume uid k r a = Some a'" and v: "created_by_viewer uid (Settle i r)"
  shows "consistent uid a'"
proof (cases k)
  case FetchPosts_k
  with r have "fetchPosts_resume uid r a = Some a'" by (simp add: resume_def)
  from fetchPosts_resume_lists [OF this] a show ?thesis
    by (auto simp: consistent_def)
next
  case (CreatePost_k ps ups)
  with r have "handleCreatePost_resume uid ps ups r a = Some a'" by (simp add: resume_def)
  from handleCreatePost_resume_lists [OF this] a k v CreatePost_k show ?thesis
    by (auto simp: consistent_def)
next
  case (DeletePost_k j ps ups)
  with r have "handleDeletePost_resume j ps ups r a = Some a'" by (simp add: resume_def)
  from handleDeletePost_resume_lists [OF this] a k DeletePost_k show ?thesis
    by (auto simp: consistent_def conj_commute)
next
  case PostLike_k
  with r have "handlePostLike_resume r a = Some a'" by (simp add: resume_def)
  from handlePostLike_resume_lists [OF this] a show ?thesis
    by (simp add: consistent_def)
next
  case PostDislike_k
  with r have "handlePostDislike_resume r a = Some a'" by (simp add: resume_def)
  from handlePostDislike_resume_lists [OF this] a show ?thesis
    by (simp add: consistent_def)
next
  case Onloadend_k
  with r have "onloadend_resume r a = Some a'" by (simp add: resume_def)
  from onloadend_resume_lists [OF this] a show ?thesis
    by (simp add: consistent_def)
qed

lemma fetchPosts_starts: "starts a (fetchPosts a)"
  by (simp add: starts_def fetchPosts_def snapshot_def)

lemma handlePostInputChange_starts: "starts a (handlePostInputChange v a)"
  by (simp add: starts_def handlePostInputChange_def)

lemma handlePostImageChange_starts: "starts a (handlePostImageChange fo a)"
  by (cases fo) (simp_all add: starts_def handlePostImageChange_def snapshot_def)

lemma removeImage_starts: "starts a (removeImage a)"
  by (simp add: starts_def removeImage_def)

lemma handleCreatePost_starts: "starts a (handleCreatePost a)"
  by (simp add: starts_def handleCreatePost_def snapshot_def)

lemma handleDeletePost_starts: "starts a (handleDeletePost j c a)"
  by (simp add: starts_def handleDeletePost_def snapshot_def)

lemma press_starts: "press v k b a = Some a' \<Longrightarrow> starts a a'"
  by (cases b)
     (auto simp: press_def starts_def snapshot_def handlePostLike_def handlePostDislike_def
        split: option.splits prod.splits)

lemma handle_starts:
  assumes "handle uid e a = Some b" and "\<And>i r. e \<noteq> Settle i r"
  shows "starts a b"
proof (cases e)
  case Mount
  with assms(1) fetchPosts_starts [of a] show ?thesis by (simp add: handle_def)
next
  case (Input v)
  with assms(1) handlePostInputChange_starts [of a v] show ?thesis by (simp add: handle_def)
next
  case (SelectImage fo)
  with assms(1) handlePostImageChange_starts [of a fo] show ?thesis by (simp add: handle_def)
next
  case RemoveImage
  with assms(1) removeImage_starts [of a] show ?thesis by (simp add: handle_def)
next
  case Submit
  with assms(1) handleCreatePost_starts [of a] show ?thesis by (simp add: handle_def)
next
  case (Delete j c)
  with assms(1) handleDeletePost_starts [of a j c] show ?thesis by (simp add: handle_def)
next
  case (Press v k b)
  with assms(1) press_starts [of v k b a] show ?thesis by (simp add: handle_def)
next
  case (Settle i r)
  with assms(2) [of i r] show ?thesis by simp
qed

lemma snapshot_closure_ok:
  "snapshot a k \<Longrightarrow> userPosts (dash a) = filter (\<lambda>p. author p = uid) (posts (dash a))
     \<Longrightarrow> closure_ok uid k"
  by (auto simp: snapshot_def)

lemma starts_consistent:
  assumes "consistent uid a" and "starts a b"
  shows "consistent uid b"
  using assms by (auto simp: consistent_def starts_def dest: snapshot_closure_ok)

lemma handle_consistent:
  assumes a: "consistent uid a" and h: "handle uid e a = Some a'"
    and v: "created_by_viewer uid e"
  shows "consistent uid a'"
proof (cases "\<exists>i r. e = Settle i r")
  case True
  then obtain i r where e: "e = Settle i r" by blast
  with h have i: "i < length (pending a)"
    and res: "resume uid (snd (pending a ! i)) r
       (a\<lparr>pending := take i (pending a) @ drop (Suc i) (pending a)\<rparr>) = Some a'"
    by (auto simp: handle_def split: if_splits)
  from a i have k: "closure_ok uid (snd (pending a ! i))"
    by (simp add: consistent_def list_all_length)
  from a have "list_all (\<lambda>rk. closure_ok uid (snd rk))
      (take i (pending a) @ drop (Suc i) (pending a))"
    by (auto simp: consistent_def list_all_iff dest: in_set_takeD in_set_dropD)
  with a have "consistent uid (a\<lparr>pending := take i (pending a) @ drop (Suc i) (pending a)\<rparr>)"
    by (simp add: consistent_def)
  from resume_consistent [OF k this res] v e show ?thesis by simp
next
  case False
  then have "\<And>i r. e \<noteq> Settle i r" by blast
  from starts_consistent [OF a handle_starts [OF h this]] show ?thesis .
qed

lemma step_consistent:
  assumes "consistent uid a" "step uid e a = Some a'" "created_by_viewer uid e"
  shows "consistent uid a'"
proof -
  from assms(2) obtain b where b: "handle uid e a = Some b"
    and a': "a' = b\<lparr>cards := render (dash b) (cards b)\<rparr>"
    by (auto simp: step_def split: option.splits)
  from handle_consistent [OF assms(1) b assms(3)] a' show ?thesis
    by (simp add: consistent_def)
qed

lemma run_consistent:
  "consistent uid a \<Longrightarrow> run uid es a = Some a' \<Longrightarrow> list_all (created_by_viewer uid) es \<Longrightarrow> consistent uid a'"
proof (induction es arbitrary: a)
  case Nil
  then show ?case by simp
next
  case (Cons e es)
  from Cons.prems(2) obtain b where b: "step uid e a = Some b" and r: "run uid es b = Some a'"
    by (auto split: option.splits)
  from Cons.prems(3) have e: "created_by_viewer uid e" and es: "list_all (created_by_viewer uid) es"
    by simp_all
  from Cons.IH [OF step_consistent [OF Cons.prems(1) b e] r es] show ?case .
qed

lemma step_rendered: "step uid e a = Some a' \<Longrightarrow> rendered a'"
  by (auto simp: step_def rendered_def render_idem split: option.splits)

lemma rendered_init: "rendered init"
  by (auto simp: rendered_def init_def render_def shown_def fun_eq_iff split: view.splits)

lemma run_rendered: "rendered a \<Longrightarrow> run uid es a = Some a' \<Longrightarrow> rendered a'"
proof (induction es arbitrary: a)
  case Nil
  then show ?case by simp
next
  case (Cons e es)
  from Cons.prems(2) obtain b where b: "step uid e a = Some b" and r: "run uid es b = Some a'"
    by (auto split: option.splits)
  from Cons.IH [OF step_rendered [OF b] r] show ?case .
qed

lemma resume_snapshot:
  assumes k: "snapshot a k"
    and a: "userPosts (dash a) = filter (\<lambda>p. author p = uid) (posts (dash a))"
    and b: "posts (dash b) = posts (dash a)" "userPosts (dash b) = userPosts (dash a)"
    and r: "resume uid k r b = Some c"
  shows "pending c = pending b
       \<and> userPosts (dash c) = filter (\<lambda>p. author p = uid) (posts (dash c))"
proof (cases k)
  case FetchPosts_k
  with r have "fetchPosts_resume uid r b = Some c" by (simp add: resume_def)
  from fetchPosts_resume_lists [OF this] a b show ?thesis by auto
next
  case (CreatePost_k ps ups)
  with r have "handleCreatePost_resume uid ps ups r b = Some c" by (simp add: resume_def)
  from handleCreatePost_resume_lists [OF this] a b k CreatePost_k show ?thesis
    by (auto simp: snapshot_def)
next
  case (DeletePost_k j ps ups)
  with r have "handleDeletePost_resume j ps ups r b = Some c" by (simp add: resume_def)
  from handleDeletePost_resume_lists [OF this] a b k DeletePost_k show ?thesis
    by (auto simp: snapshot_def conj_commute)
next
  case PostLike_k
  with r have "handlePostLike_resume r b = Some c" by (simp add: resume_def)
  from handlePostLike_resume_lists [OF this] a b show ?thesis by simp
next
  case PostDislike_k
  with r have "handlePostDislike_resume r b = Some c" by (simp add: resume_def)
  from handlePostDislike_resume_lists [OF this] a b show ?thesis by simp
next
  case Onloadend_k
  with r have "onloadend_resume r b = Some c" by (simp add: resume_def)
  from onloadend_resume_lists [OF this] a b show ?thesis by simp
qed

lemma complete_quiet:
  assumes q: "quiet uid a" and c: "complete uid e r a = Some a'"
  shows "quiet uid a'"
proof -
  from q have p: "pending a = []"
    and inv: "userPosts (dash a) = filter (\<lambda>p. author p = uid) (posts (dash a))"
    by (simp_all add: quiet_def)
  from c obtain b0 where b0: "step uid e a = Some b0"
    by (auto simp: complete_def split: option.splits)
  then obtain b where b: "handle uid e a = Some b"
    and b0': "b0 = b\<lparr>cards := render (dash b) (cards b)\<rparr>"
    by (auto simp: step_def split: option.splits)
  from b p have "\<And>i r. e \<noteq> Settle i r"
    by (auto simp: handle_def)
  from handle_starts [OF b this] have st: "starts a b" .
  show ?thesis
  proof (cases "pending b = []")
    case True
    with c b0 b0' p have "a' = b0" by (simp add: complete_def)
    with True b0' st inv show ?thesis by (simp add: quiet_def starts_def)
  next
    case False
    with st p obtain rq k where pk: "pending b = [(rq, k)]" and k: "snapshot a k"
      by (auto simp: starts_def)
    from c b0 b0' p pk have s2: "step uid (Settle 0 r) b0 = Some a'"
      by (simp add: complete_def)
    then obtain d where d: "resume uid k r (b0\<lparr>pending := []\<rparr>) = Some d"
      and a': "a' = d\<lparr>cards := render (dash d) (cards d)\<rparr>"
      using b0' pk by (auto simp: step_def handle_def split: option.splits)
    from st b0' have "posts (dash (b0\<lparr>pending := []\<rparr>)) = posts (dash a)"
      and "userPosts (dash (b0\<lparr>pending := []\<rparr>)) = userPosts (dash a)"
      by (simp_all add: starts_def)
    from resume_snapshot [OF k inv this d] a' show ?thesis
      by (simp add: quiet_def)
  qed
qed

lemma complete_all_quiet:
  "quiet uid a \<Longrightarrow> complete_all uid ers a = Some a' \<Longrightarrow> quiet uid a'"
proof (induction ers arbitrary: a)
  case Nil
  then show ?case by simp
next
  case (Cons er ers)
  obtain e r where er: "er = (e, r)" by (cases er)
  with Cons.prems(2) obtain b where b: "complete uid e r a = Some b"
    and r: "complete_all uid ers b = Some a'"
    by (auto split: option.splits)
  from Cons.IH [OF complete_quiet [OF Cons.prems(1) b] r] show ?case .
qed

lemma quiet_init: "quiet uid init"
  by (simp add: quiet_def init_def)

lemma render_upd:
  assumes "rendered a" and "cards a (v, k) = Some c"
  shows "render (dash a) ((cards a)((v, k) \<mapsto> c')) = (cards a)((v, k) \<mapsto> c')"
proof
  fix x :: "view \<times> int"
  obtain w j where x: "x = (w, j)" by (cases x)
  from assms(1) have r: "render (dash a) (cards a) (w, j) = cards a (w, j)"
    by (simp add: rendered_def)
  show "render (dash a) ((cards a)((v, k) \<mapsto> c')) x = ((cards a)((v, k) \<mapsto> c')) x"
  proof (cases "(w, j) = (v, k)")
    case True
    from r assms(2) True obtain p where "find (\<lambda>p. id_post p = k) (shown (dash a) v) = Some p"
      by (auto simp: render_def split: option.splits)
    with True x show ?thesis
      by (simp add: render_def)
  next
    case False
    then have "render (dash a) ((cards a)((v, k) \<mapsto> c')) (w, j)
        = render (dash a) (cards a) (w, j)"
      by (auto simp: render_def split: option.splits)
    with r False x show ?thesis by auto
  qed
qed

lemma handle_press:
  assumes "cards a (v, k) = Some c"
  shows "handle uid (Press v k b) a =
     Some (a\<lparr>pending := pending a @ [react_request k b c],
             cards := (cards a)((v, k) \<mapsto> click k b c)\<rparr>)"
  using assms
  by (cases b)
     (simp_all add: handle_def press_def click_def react_request_def handleLike_defs
        handleDislike_defs handlePostLike_def handlePostDislike_def)

lemma step_press:
  assumes "rendered a" and "cards a (v, k) = Some c"
  shows "step uid (Press v k b) a =
     Some (a\<lparr>pending := pending a @ [react_request k b c],
             cards := (cards a)((v, k) \<mapsto> click k b c)\<rparr>)"
  using render_upd [OF assms, of "click k b c"]
  by (simp add: step_def handle_press [OF assms(2)])

lemma step_press_None:
  assumes "cards a (v, k) = None"
  shows "step uid (Press v k b) a = None"
  using assms by (simp add: step_def handle_def press_def)

lemma step_dash:
  "step uid e a = map_option (\<lambda>b. b\<lparr>cards := render (dash b) (cards b)\<rparr>) (handle uid e a)"
  by (simp add: step_def split: option.splits)

lemma step_settle:
  assumes "i < length (pending b)"
  shows "step uid (Settle i r) b =
     map_option (\<lambda>c. c\<lparr>cards := render (dash c) (cards c)\<rparr>)
       (resume uid (snd (pending b ! i)) r
          (b\<lparr>pending := take i (pending b) @ drop (Suc i) (pending b)\<rparr>))"
  using assms by (simp add: step_dash handle_def)

lemma complete_call:
  assumes h: "handle uid e a = Some b"
    and p: "pending b = pending a @ [(rq, k)]"
  shows "complete uid e r a =
     map_option (\<lambda>c. c\<lparr>cards := render (dash c) (cards c)\<rparr>)
       (resume uid k r (b\<lparr>cards := render (dash b) (cards b), pending := pending a\<rparr>))"
proof -
  let ?b = "b\<lparr>cards := render (dash b) (cards b)\<rparr>"
  have s: "step uid e a = Some ?b"
    using h by (simp add: step_def)
  have "complete uid e r a = step uid (Settle (length (pending a)) r) ?b"
    using p by (simp add: complete_def s)
  also have "\<dots> = map_option (\<lambda>c. c\<lparr>cards := render (dash c) (cards c)\<rparr>)
       (handle uid (Settle (length (pending a)) r) ?b)"
    by (rule step_dash)
  also have "handle uid (Settle (length (pending a)) r) ?b
      = resume uid k r (?b\<lparr>pending := pending a\<rparr>)"
    using p by (simp add: handle_def)
  finally show ?thesis by simp
qed

lemma click_trace_nonempty: "click_trace k bs c \<noteq> []"
  by (cases bs) simp_all

lemma render_loaded:
  "render (dash loaded) (\<lambda>_. None) = cards loaded"
proof
  fix x :: "view \<times> int"
  obtain v k where x: "x = (v, k)" by (cases x)
  show "render (dash loaded) (\<lambda>_. None) x = cards loaded x"
    unfolding x
    by (cases v) (simp_all add: render_def shown_def loaded_def post_1_def post_2_def)
qed

lemma run_loaded: "run 5 [Mount, Settle 0 (Posts [post_1, post_2])] init = Some loaded"
proof -
  have 1: "step 5 Mount init = Some (fetchPosts init)"
    by (auto simp: step_def handle_def render_def shown_def fetchPosts_def init_def
          fun_eq_iff split: view.splits)
  have 2: "handle 5 (Settle 0 (Posts [post_1, post_2])) (fetchPosts init) = Some (loaded\<lparr>cards := (\<lambda>_. None)\<rparr>)"
    by (simp add: handle_def resume_def fetchPosts_resume_def fetchPosts_def init_def loaded_def post_1_def post_2_def)
  have 3: "step 5 (Settle 0 (Posts [post_1, post_2])) (fetchPosts init) = Some loaded"
    using render_loaded by (simp add: step_def 2)
  show ?thesis by (simp add: 1 3)
qed

lemma rendered_loaded: "rendered loaded"
  using run_rendered [OF rendered_init run_loaded] .

lemma complete_press:
  assumes r: "rendered a" and c: "cards a (v, k) = Some c"
  shows "complete uid (Press v k b) o' a =
     map_option (\<lambda>d. d\<lparr>cards := (cards a)((v, k) \<mapsto> click k b c)\<rparr>)
       (resume uid (snd (react_request k b c)) o' a)"
proof -
  let ?cs = "(cards a)((v, k) \<mapsto> click k b c)"
  let ?b = "a\<lparr>pending := pending a @ [react_request k b c], cards := ?cs\<rparr>"
  have u: "render (dash a) ?cs = ?cs"
    by (rule render_upd [OF r c])
  have h: "handle uid (Press v k b) a = Some ?b"
    by (rule handle_press [OF c])
  have p: "pending ?b = pending a @ [(fst (react_request k b c), snd (react_request k b c))]"
    by simp
  have same: "?b\<lparr>cards := render (dash ?b) (cards ?b), pending := pending a\<rparr> = a\<lparr>cards := ?cs\<rparr>"
    by (simp add: u)
  have res: "resume uid (snd (react_request k b c)) o' (a\<lparr>cards := ?cs\<rparr>)
      = map_option (\<lambda>d. d\<lparr>cards := ?cs\<rparr>) (resume uid (snd (react_request k b c)) o' a)"
    by (cases b; cases o')
       (simp_all add: react_request_def resume_def handlePostLike_resume_def
          handlePostDislike_resume_def)
  have keep: "dash d = dash a"
    if "resume uid (snd (react_request k b c)) o' a = Some d" for d
    using that
    by (cases b; cases o')
       (auto simp: react_request_def resume_def handlePostLike_resume_def
          handlePostDislike_resume_def)
  show ?thesis
  proof (cases "resume uid (snd (react_request k b c)) o' a")
    case None
    then show ?thesis
      unfolding complete_call [OF h p] same res by simp
  next
    case (Some d)
    from keep [OF Some] have "render (dash d) ?cs = ?cs"
      using u by simp
    with Some show ?thesis
      unfolding complete_call [OF h p] same res by simp
  qed
qed

lemma presses_pending:
  assumes "rendered a" and "cards a (v, k) = Some c"
  shows "map_option (\<lambda>d. length (pending d)) (run uid (replicate n (Press v k b)) a)
     = Some (length (pending a) + n)"
  using assms
proof (induction n arbitrary: a c)
  case 0
  then show ?case by simp
next
  case (Suc n)
  let ?a1 = "a\<lparr>pending := pending a @ [react_request k b c],
             cards := (cards a)((v, k) \<mapsto> click k b c)\<rparr>"
  have s: "step uid (Press v k b) a = Some ?a1"
    by (rule step_press [OF Suc.prems])
  have r1: "rendered ?a1"
    by (rule step_rendered [OF s])
  have c1: "cards ?a1 (v, k) = Some (click k b c)"
    by simp
  from Suc.IH [OF r1 c1] show ?case
    by (simp add: s)
qed

lemma presses_frame:
  assumes "rendered a" and "run uid (map (Press v k) bs) a = Some a'"
  shows "dash a' = dash a \<and> alerts a' = alerts a
       \<and> (\<forall>x. x \<noteq> (v, k) \<longrightarrow> cards a' x = cards a x)
       \<and> cards a' (v, k) = map_option (\<lambda>c. last (click_trace k bs c)) (cards a (v, k))"
  using assms
proof (induction bs arbitrary: a)
  case Nil
  then show ?case by (cases "cards a (v, k)") simp_all
next
  case (Cons b bs)
  show ?case
  proof (cases "cards a (v, k)")
    case None
    from step_press_None [OF None] Cons.prems(2) show ?thesis by simp
  next
    case (Some c)
    let ?a1 = "a\<lparr>pending := pending a @ [react_request k b c],
             cards := (cards a)((v, k) \<mapsto> click k b c)\<rparr>"
    have s: "step uid (Press v k b) a = Some ?a1"
      by (rule step_press [OF Cons.prems(1) Some])
    have r1: "rendered ?a1"
      by (rule step_rendered [OF s])
    from Cons.prems(2) s have "run uid (map (Press v k) bs) ?a1 = Some a'"
      by simp
    from Cons.IH [OF r1 this] Some show ?thesis
      by (simp add: click_trace_nonempty)
  qed
qed

section \<open>The two lists of Dashboard\<close>

text \<open>
  Where the code keeps the own-posts list \<^verbatim>\<open>userPosts\<close> equal to the feed \<^verbatim>\<open>posts\<close>
  filtered by \<^verbatim>\<open>post.author === user.id\<close>: in every state reached from the initial state
  by any interleaving of handler runs and call settlements, as long as each create call is
  answered with a post of the viewer; and after every operation of any sequence of
  operations in which each call settles, with any response or with failure, before the
  next handler runs.
\<close>

lemma mine_is_own_part_of_all:
  "(run uid es init = Some a \<longrightarrow> list_all (created_by_viewer uid) es \<longrightarrow>
      userPosts (dash a) = filter (\<lambda>p. author p = uid) (posts (dash a)))
   \<and> (complete_all uid ers init = Some a' \<longrightarrow>
      userPosts (dash a') = filter (\<lambda>p. author p = uid) (posts (dash a')))"
proof -
  have "consistent uid a"
    if "run uid es init = Some a" and "list_all (created_by_viewer uid) es"
    using run_consistent [OF consistent_init that] .
  moreover have "quiet uid a'" if "complete_all uid ers init = Some a'"
    using complete_all_quiet [OF quiet_init that] .
  ultimately show ?thesis
    by (simp add: consistent_def quiet_def)
qed

text \<open>
  Claim C3: after every operation that completes, \<^verbatim>\<open>userPosts\<close> is the part of \<^verbatim>\<open>posts\<close>
  whose author is the viewer. The code breaks it. The code that \<^verbatim>\<open>handleCreatePost\<close> runs
  after its \<^verbatim>\<open>await\<close> builds \<^verbatim>\<open>posts\<close> from the list of the render in which the form was
  submitted, and touches \<^verbatim>\<open>userPosts\<close> only when the author of the new post is the viewer.
  For viewer 5: the Dashboard mounts and fetches, the user submits \<^verbatim>\<open>hello\<close> while the
  fetch is in flight, the fetch answers with post 1 (author 5), then the create call
  answers with post 2 (author 9). All operations have completed; \<^verbatim>\<open>posts\<close> is post 2
  alone, \<^verbatim>\<open>userPosts\<close> is post 1 alone, and the viewer's part of \<^verbatim>\<open>posts\<close> is empty.
\<close>

theorem C3_stale_closure_breaks_mine:
  "map_option
     (\<lambda>a. (posts (dash a), userPosts (dash a),
           filter (\<lambda>p. author p = 5) (posts (dash a)), map fst (pending a)))
     (run 5 [Mount, Input hello, Submit, Settle 0 (Posts [post_1]),
             Settle 0 (Created post_2)] init)
   = Some ([post_2], [post_1], [], [])"
  by code_simp

section \<open>Create\<close>

text \<open>
  A description of white space only, such as a lone no-break space, is rejected before any
  call is issued.
\<close>

lemma blank_description_rejected:
  "trim nbsp = []
   \<and> handleCreatePost (handlePostInputChange nbsp init)
       = (handlePostInputChange nbsp init)
           \<lparr>dash := (dash (handlePostInputChange nbsp init))
              \<lparr>createError := Some ''Post description is required''\<rparr>\<rparr>"
  by (simp add: handleCreatePost_def handlePostInputChange_def init_def trim_def is_space_def
        nbsp_def)

text \<open>
  Claim C4, as stated: a create with a non-empty description puts a provisional entry
  with a negative id into the collection at once, before the remote call confirms. It
  fails: with the description \<^verbatim>\<open>hello\<close> submitted and the create call in flight, both
  lists are still empty.
\<close>

theorem C4_provisional_entry_counterexample:
  "map_option (\<lambda>a. (posts (dash a), userPosts (dash a), map fst (pending a)))
     (run 5 [Input hello, Submit] init)
   = Some ([], [], [CreatePost \<lparr>description_draft = hello, image_draft = None\<rparr>])"
  by code_simp

text \<open>
  Claim C4, amended. A create whose description is not empty after trimming changes
  nothing in the collection before the remote call confirms: it marks the form as
  creating, clears the create error and issues the call with the draft. When the call
  succeeds, in whatever state, and the two lists are still the ones of the submit (the
  lists its continuation captured), the post of the response is put in front of the feed,
  and in front of the own posts when its author is the viewer: one new entry with the id
  the server gave. When the call fails, in whatever state, the two lists are left as they
  are and \<^verbatim>\<open>createError\<close> becomes the first value of the \<^verbatim>\<open>errors\<close> object of the response
  when it has one, nothing (\<^verbatim>\<open>undefined\<close>) when that object is empty, and
  \<^verbatim>\<open>Failed to create post. Please try again.\<close> when the response has no such object.
\<close>

theorem C4_create_after_confirmation:
  assumes "trim (description_draft (newPost (dash a))) \<noteq> []"
  shows "dash (handleCreatePost a) = (dash a)\<lparr>isCreatingPost := True, createError := Some []\<rparr>
    \<and> pending (handleCreatePost a) = pending a @
         [(CreatePost (newPost (dash a)), CreatePost_k (posts (dash a)) (userPosts (dash a)))]
    \<and> (i < length (pending b)
        \<and> snd (pending b ! i) = CreatePost_k (posts (dash b)) (userPosts (dash b)) \<longrightarrow>
        map_option (\<lambda>c. (posts (dash c), userPosts (dash c)))
          (step uid (Settle i (Created p)) b)
        = Some (p # posts (dash b),
                if author p = uid then p # userPosts (dash b) else userPosts (dash b)))
    \<and> (i < length (pending b) \<and> snd (pending b ! i) = CreatePost_k ps ups \<longrightarrow>
        map_option (\<lambda>c. (posts (dash c), userPosts (dash c), createError (dash c)))
          (step uid (Settle i (Failed errs)) b)
        = Some (posts (dash b), userPosts (dash b),
                case errs of
                  Some [] \<Rightarrow> None
                | Some (e # es) \<Rightarrow> Some e
                | None \<Rightarrow> Some ''Failed to create post. Please try again.''))"
proof -
  have d: "dash (handleCreatePost a) = (dash a)\<lparr>isCreatingPost := True, createError := Some []\<rparr>"
    and p: "pending (handleCreatePost a) = pending a @
         [(CreatePost (newPost (dash a)), CreatePost_k (posts (dash a)) (userPosts (dash a)))]"
    using assms by (simp_all add: handleCreatePost_def)
  have ok: "map_option (\<lambda>c. (posts (dash c), userPosts (dash c)))
          (step uid (Settle i (Created p)) b)
        = Some (p # posts (dash b),
                if author p = uid then p # userPosts (dash b) else userPosts (dash b))"
    if "i < length (pending b)"
      and "snd (pending b ! i) = CreatePost_k (posts (dash b)) (userPosts (dash b))"
    unfolding step_settle [OF that(1)] that(2)
    by (simp add: resume_def handleCreatePost_resume_def)
  have ko: "map_option (\<lambda>c. (posts (dash c), userPosts (dash c), createError (dash c)))
          (step uid (Settle i (Failed errs)) b)
        = Some (posts (dash b), userPosts (dash b),
                case errs of
                  Some [] \<Rightarrow> None
                | Some (e # es) \<Rightarrow> Some e
                | None \<Rightarrow> Some ''Failed to create post. Please try again.'')"
    if "i < length (pending b)" and "snd (pending b ! i) = CreatePost_k ps ups"
    unfolding step_settle [OF that(1)] that(2)
    by (simp add: resume_def handleCreatePost_resume_def)
  from d p ok ko show ?thesis
    by blast
qed

theorem C4_create_after_confirmation_witness:
  "trim (description_draft (newPost (dash drafted))) \<noteq> []
   \<and> posts (dash (handleCreatePost drafted)) = []
   \<and> userPosts (dash (handleCreatePost drafted)) = []
   \<and> 0 < length (pending (handleCreatePost drafted))
   \<and> snd (pending (handleCreatePost drafted) ! 0) = CreatePost_k [] []
   \<and> map_option (\<lambda>c. (posts (dash c), userPosts (dash c)))
        (step 5 (Settle 0 (Created post_42)) (handleCreatePost drafted))
       = Some ([post_42], [post_42])
   \<and> map_option (\<lambda>c. (posts (dash c), userPosts (dash c), createError (dash c)))
        (step 5 (Settle 0 (Failed (Some [''Too long'']))) (handleCreatePost drafted))
       = Some ([], [], Some ''Too long'')"
proof -
  have t: "trim (description_draft (newPost (dash drafted))) \<noteq> []"
    by (simp add: drafted_def handlePostInputChange_def init_def trim_def is_space_def
          hello_def)
  have l: "posts (dash drafted) = []" "userPosts (dash drafted) = []" "pending drafted = []"
    by (simp_all add: drafted_def handlePostInputChange_def init_def)
  note c4 = C4_create_after_confirmation
    [OF t, where b = "handleCreatePost drafted" and i = 0 and uid = 5 and p = post_42
       and ps = "[]" and ups = "[]" and errs = "Some [''Too long'']"]
  from c4 l have d: "posts (dash (handleCreatePost drafted)) = []"
    "userPosts (dash (handleCreatePost drafted)) = []"
    and p: "0 < length (pending (handleCreatePost drafted))"
    "snd (pending (handleCreatePost drafted) ! 0) = CreatePost_k [] []"
    by simp_all
  from c4 d p have "map_option (\<lambda>c. (posts (dash c), userPosts (dash c)))
        (step 5 (Settle 0 (Created post_42)) (handleCreatePost drafted))
       = Some ([post_42], [post_42])"
    by (simp add: post_42_def)
  moreover from c4 d p have "map_option (\<lambda>c. (posts (dash c), userPosts (dash c), createError (dash c)))
        (step 5 (Settle 0 (Failed (Some [''Too long'']))) (handleCreatePost drafted))
       = Some ([], [], Some ''Too long'')"
    by simp
  ultimately show ?thesis
    using t d p by blast
qed

section \<open>Delete\<close>

text \<open>
  Claim C5, as stated: a delete removes the post from the collection at once, before the
  remote call resolves. It fails: with the delete of post 1 confirmed by the user and the
  delete call in flight, post 1 is still in both lists.
\<close>

theorem C5_optimistic_delete_counterexample:
  "map_option (\<lambda>a. (posts (dash a), userPosts (dash a), map fst (pending a)))
     (run 5 [Mount, Settle 0 (Posts [post_1, post_2]), Delete 1 True] init)
   = Some ([post_1, post_2], [post_1], [DeletePost 1])"
  by code_simp

text \<open>
  Claim C5, amended. A delete that the user declines in the confirmation dialog does
  nothing. A confirmed delete issues the remote call and does not change the Dashboard
  state. When the call succeeds, in whatever state, and the two lists are still the ones
  of the moment the call was issued (the lists its continuation captured), every post with
  that id is removed from the feed and from the own posts, the other posts keeping their
  order; for an id that is in neither list this leaves both lists unchanged. When the
  call fails, in whatever state, the Dashboard state is left as it is at that moment (this
  delete has never changed it, so there is nothing to put back) and
  \<^verbatim>\<open>Failed to delete post\<close> is shown in an alert.
\<close>

theorem C5_delete_after_confirmation:
  "handleDeletePost k False a = a
   \<and> dash (handleDeletePost k True a) = dash a
   \<and> pending (handleDeletePost k True a) = pending a @
        [(DeletePost k, DeletePost_k k (posts (dash a)) (userPosts (dash a)))]
   \<and> (i < length (pending b)
       \<and> snd (pending b ! i) = DeletePost_k k (posts (dash b)) (userPosts (dash b)) \<longrightarrow>
       map_option (\<lambda>c. (posts (dash c), userPosts (dash c), alerts c))
         (step uid (Settle i Done) b)
       = Some (filter (\<lambda>p. id_post p \<noteq> k) (posts (dash b)),
               filter (\<lambda>p. id_post p \<noteq> k) (userPosts (dash b)), alerts b))
   \<and> (i < length (pending b)
       \<and> snd (pending b ! i) = DeletePost_k k (posts (dash b)) (userPosts (dash b))
       \<and> k \<notin> id_post ` set (posts (dash b)) \<union> id_post ` set (userPosts (dash b)) \<longrightarrow>
       map_option (\<lambda>c. (posts (dash c), userPosts (dash c), alerts c))
         (step uid (Settle i Done) b)
       = Some (posts (dash b), userPosts (dash b), alerts b))
   \<and> (i < length (pending b) \<and> snd (pending b ! i) = DeletePost_k k ps ups \<longrightarrow>
       map_option (\<lambda>c. (dash c, alerts c)) (step uid (Settle i (Failed errs)) b)
       = Some (dash b, alerts b @ [''Failed to delete post'']))"
proof -
  have n: "handleDeletePost k False a = a"
    by (simp add: handleDeletePost_def)
  have d: "dash (handleDeletePost k True a) = dash a"
    and p: "pending (handleDeletePost k True a) = pending a @
        [(DeletePost k, DeletePost_k k (posts (dash a)) (userPosts (dash a)))]"
    by (simp_all add: handleDeletePost_def)
  have ok: "map_option (\<lambda>c. (posts (dash c), userPosts (dash c), alerts c))
         (step uid (Settle i Done) b)
       = Some (filter (\<lambda>p. id_post p \<noteq> k) (posts (dash b)),
               filter (\<lambda>p. id_post p \<noteq> k) (userPosts (dash b)), alerts b)"
    if "i < length (pending b)"
      and "snd (pending b ! i) = DeletePost_k k (posts (dash b)) (userPosts (dash b))"
    unfolding step_settle [OF that(1)] that(2)
    by (simp add: resume_def handleDeletePost_resume_def)
  have absent: "filter (\<lambda>p. id_post p \<noteq> k) qs = qs" if "k \<notin> id_post ` set qs" for qs
    using that by (induction qs) auto
  have noop: "map_option (\<lambda>c. (posts (dash c), userPosts (dash c), alerts c))
         (step uid (Settle i Done) b)
       = Some (posts (dash b), userPosts (dash b), alerts b)"
    if "i < length (pending b)"
      and "snd (pending b ! i) = DeletePost_k k (posts (dash b)) (userPosts (dash b))"
      and "k \<notin> id_post ` set (posts (dash b)) \<union> id_post ` set (userPosts (dash b))"
    using that(3) by (simp add: ok [OF that(1,2)] absent)
  have ko: "map_option (\<lambda>c. (dash c, alerts c)) (step uid (Settle i (Failed errs)) b)
       = Some (dash b, alerts b @ [''Failed to delete post''])"
    if "i < length (pending b)" and "snd (pending b ! i) = DeletePost_k k ps ups"
    unfolding step_settle [OF that(1)] that(2)
    by (simp add: resume_def handleDeletePost_resume_def)
  from n d p ok noop ko show ?thesis
    by blast
qed

theorem C5_delete_after_confirmation_witness:
  "0 < length (pending (handleDeletePost 1 True loaded))
   \<and> snd (pending (handleDeletePost 1 True loaded) ! 0)
       = DeletePost_k 1 (posts (dash (handleDeletePost 1 True loaded)))
           (userPosts (dash (handleDeletePost 1 True loaded)))
   \<and> dash (handleDeletePost 1 True loaded) = dash loaded
   \<and> map_option (\<lambda>c. (posts (dash c), userPosts (dash c), alerts c))
        (step 5 (Settle 0 Done) (handleDeletePost 1 True loaded)) = Some ([post_2], [], [])
   \<and> map_option (\<lambda>c. (dash c, alerts c))
        (step 5 (Settle 0 (Failed None)) (handleDeletePost 1 True loaded))
       = Some (dash loaded, [''Failed to delete post''])
   \<and> 7 \<notin> id_post ` set (posts (dash (handleDeletePost 7 True loaded)))
          \<union> id_post ` set (userPosts (dash (handleDeletePost 7 True loaded)))
   \<and> map_option (\<lambda>c. (posts (dash c), userPosts (dash c), alerts c))
        (step 5 (Settle 0 Done) (handleDeletePost 7 True loaded))
       = Some ([post_1, post_2], [post_1], [])"
proof -
  have l: "pending loaded = []" "alerts loaded = []"
    "posts (dash loaded) = [post_1, post_2]" "userPosts (dash loaded) = [post_1]"
    by (simp_all add: loaded_def)
  have ids: "id_post post_1 = 1" "id_post post_2 = 2"
    by (simp_all add: post_1_def post_2_def)
  note one = C5_delete_after_confirmation
    [where k = 1 and a = loaded and i = 0 and b = "handleDeletePost 1 True loaded"
       and uid = 5 and ps = "posts (dash loaded)" and ups = "userPosts (dash loaded)"
       and errs = None]
  note seven = C5_delete_after_confirmation
    [where k = 7 and a = loaded and i = 0 and b = "handleDeletePost 7 True loaded"
       and uid = 5 and ps = "posts (dash loaded)" and ups = "userPosts (dash loaded)"
       and errs = None]
  from one l have d1: "dash (handleDeletePost 1 True loaded) = dash loaded"
    and p1: "pending (handleDeletePost 1 True loaded)
      = [(DeletePost 1, DeletePost_k 1 (posts (dash loaded)) (userPosts (dash loaded)))]"
    and a1: "alerts (handleDeletePost 1 True loaded) = []"
    by (simp_all add: handleDeletePost_def)
  from seven l have d7: "dash (handleDeletePost 7 True loaded) = dash loaded"
    and p7: "pending (handleDeletePost 7 True loaded)
      = [(DeletePost 7, DeletePost_k 7 (posts (dash loaded)) (userPosts (dash loaded)))]"
    and a7: "alerts (handleDeletePost 7 True loaded) = []"
    by (simp_all add: handleDeletePost_def)
  from one have "map_option (\<lambda>c. (posts (dash c), userPosts (dash c), alerts c))
        (step 5 (Settle 0 Done) (handleDeletePost 1 True loaded)) = Some ([post_2], [], [])"
    by (simp add: d1 p1 a1 l ids)
  moreover from one have "map_option (\<lambda>c. (dash c, alerts c))
        (step 5 (Settle 0 (Failed None)) (handleDeletePost 1 True loaded))
       = Some (dash loaded, [''Failed to delete post''])"
    by (simp add: d1 p1 a1 l)
  moreover from seven have "map_option (\<lambda>c. (posts (dash c), userPosts (dash c), alerts c))
        (step 5 (Settle 0 Done) (handleDeletePost 7 True loaded))
       = Some ([post_1, post_2], [post_1], [])"
    by (simp add: d7 p7 a7 l ids)
  ultimately show ?thesis
    by (simp add: d1 p1 d7 l ids)
qed

section \<open>Reactions and the remote call\<close>

text \<open>
  Claim C6, as stated: when the remote reaction call fails, the reaction state and the
  counters of the post go back to their values from before the operation. It fails: the
  feed card of post 1 is not liked with 3 likes; after the like click and the failure of
  the like call it is liked with 4 likes, and \<^verbatim>\<open>Failed to update like\<close> has been shown.
\<close>

theorem C6_rollback_counterexample:
  "map_option (\<lambda>a. (cards a (Feed, 1), map fst (pending a), alerts a))
     (run 5 [Mount, Settle 0 (Posts [post_1, post_2])] init)
   = Some (Some \<lparr>isLiked = False, isDisliked = False, likesCount = 3, dislikesCount = 1\<rparr>,
       [], [])
   \<and> map_option (\<lambda>a. (cards a (Feed, 1), map fst (pending a), alerts a))
     (run 5 [Mount, Settle 0 (Posts [post_1, post_2]), Press Feed 1 LikeButton,
             Settle 0 (Failed None)] init)
   = Some (Some \<lparr>isLiked = True, isDisliked = False, likesCount = 4, dislikesCount = 1\<rparr>,
       [], [''Failed to update like''])"
  by code_simp

text \<open>
  Claim C6, amended. When the remote call of a reaction fails, nothing is reverted: the
  card keeps the flags and counters that the click gave it, the Dashboard state is
  unchanged, and the failure is shown in an alert (\<^verbatim>\<open>Failed to update like\<close> or
  \<^verbatim>\<open>Failed to update dislike\<close>); the card is not told. When the call succeeds the card
  is the same and nothing is shown.
\<close>

theorem C6_failed_reaction_not_reverted:
  assumes "rendered a" and "cards a (v, k) = Some c"
  shows "map_option (\<lambda>d. (cards d (v, k), dash d, pending d, alerts d))
           (complete uid (Press v k b) (Failed errs) a)
         = Some (Some (click k b c), dash a, pending a,
                 alerts a @ [case b of LikeButton \<Rightarrow> ''Failed to update like''
                                     | DislikeButton \<Rightarrow> ''Failed to update dislike''])
       \<and> map_option (\<lambda>d. (cards d (v, k), dash d, pending d, alerts d))
           (complete uid (Press v k b) Done a)
         = Some (Some (click k b c), dash a, pending a, alerts a)"
  unfolding complete_press [OF assms]
  by (cases b)
     (simp_all add: react_request_def resume_def handlePostLike_resume_def
        handlePostDislike_resume_def)

theorem C6_failed_reaction_not_reverted_witness:
  "rendered loaded
   \<and> cards loaded (Feed, 1)
       = Some \<lparr>isLiked = False, isDisliked = False, likesCount = 3, dislikesCount = 1\<rparr>
   \<and> map_option (\<lambda>d. (cards d (Feed, 1), dash d, pending d, alerts d))
        (complete 5 (Press Feed 1 LikeButton) (Failed None) loaded)
       = Some (Some \<lparr>isLiked = True, isDisliked = False, likesCount = 4, dislikesCount = 1\<rparr>,
               dash loaded, [], [''Failed to update like''])"
proof -
  have c: "cards loaded (Feed, 1)
       = Some \<lparr>isLiked = False, isDisliked = False, likesCount = 3, dislikesCount = 1\<rparr>"
    by (simp add: loaded_def PostCard_init_def post_1_def)
  from C6_failed_reaction_not_reverted [OF rendered_loaded c, of 5 LikeButton None]
    rendered_loaded c
  show ?thesis
    by (simp add: click_def handleLike_defs js_add_exact loaded_def)
qed

text \<open>
  Claim C7, as stated: while a reaction on a post is pending, a second reaction on the
  same post is rejected with OperationInProgress, and at most one operation is pending per
  post and kind. It fails: three like clicks on the feed card of post 1, none of the calls
  settled, are all applied (the card ends liked with 4 likes) and three calls on post 1
  are in flight, two of them the same like call.
\<close>

theorem C7_in_progress_counterexample:
  "map_option (\<lambda>a. (cards a (Feed, 1), map fst (pending a)))
     (run 5 [Mount, Settle 0 (Posts [post_1, post_2]), Press Feed 1 LikeButton,
             Press Feed 1 LikeButton, Press Feed 1 LikeButton] init)
   = Some (Some \<lparr>isLiked = True, isDisliked = False, likesCount = 4, dislikesCount = 1\<rparr>,
       [LikePost 1, RemoveLike 1, LikePost 1])"
  by code_simp

text \<open>
  Claim C7, amended. A reaction on a post is never rejected because another one is
  pending: whatever is in flight, a click on a button of a mounted card is applied to the
  card and adds one more remote call to those in flight, so that \<open>n\<close> clicks in a row
  leave \<open>n\<close> more calls in flight; no pending marker is kept.
\<close>

theorem C7_reactions_never_rejected:
  assumes "rendered a" and "cards a (v, k) = Some c"
  shows "map_option (\<lambda>d. (cards d (v, k), pending d)) (step uid (Press v k b) a)
         = Some (Some (click k b c), pending a @ [react_request k b c])
       \<and> map_option (\<lambda>d. length (pending d)) (run uid (replicate n (Press v k b)) a)
         = Some (length (pending a) + n)"
  using presses_pending [OF assms] by (simp add: step_press [OF assms])

theorem C7_reactions_never_rejected_witness:
  "rendered loaded
   \<and> cards loaded (Feed, 1)
       = Some \<lparr>isLiked = False, isDisliked = False, likesCount = 3, dislikesCount = 1\<rparr>
   \<and> map_option (\<lambda>d. (cards d (Feed, 1), pending d)) (step 5 (Press Feed 1 LikeButton) loaded)
       = Some (Some \<lparr>isLiked = True, isDisliked = False, likesCount = 4, dislikesCount = 1\<rparr>,
               [(LikePost 1, PostLike_k)])
   \<and> map_option (\<lambda>d. length (pending d)) (run 5 (replicate 3 (Press Feed 1 LikeButton)) loaded)
       = Some 3"
proof -
  have c: "cards loaded (Feed, 1)
       = Some \<lparr>isLiked = False, isDisliked = False, likesCount = 3, dislikesCount = 1\<rparr>"
    by (simp add: loaded_def PostCard_init_def post_1_def)
  from C7_reactions_never_rejected [OF rendered_loaded c, of 5 LikeButton 3]
    rendered_loaded c
  show ?thesis
    by (simp add: click_def handleLike_defs js_add_exact react_request_def loaded_def)
qed



section \<open>The cards of the two places\<close>

text \<open>
  Claim C10. The feed and the "My Posts" section each mount a card of their own for a
  post, with cells of its own. Clicks on the buttons of the card of post \<open>k\<close> in one place
  change that card only: the card of the same post in the other place, and every other
  card, keeps its flags and counters, and the lists of Dashboard stay as they are; the
  clicked card goes through the states of the click sequence.
\<close>

theorem C10_cards_are_independent:
  assumes "rendered a" and "run uid (map (Press v k) bs) a = Some a'"
  shows "(\<forall>v'. v' \<noteq> v \<longrightarrow> cards a' (v', k) = cards a (v', k))
       \<and> (\<forall>x. x \<noteq> (v, k) \<longrightarrow> cards a' x = cards a x)
       \<and> cards a' (v, k) = map_option (\<lambda>c. last (click_trace k bs c)) (cards a (v, k))
       \<and> dash a' = dash a"
  using presses_frame [OF assms] by simp

theorem C10_cards_are_independent_witness:
  "\<exists>a'. rendered loaded
     \<and> run 5 (map (Press Feed 1) [LikeButton]) loaded = Some a'
     \<and> cards loaded (Feed, 1)
         = Some \<lparr>isLiked = False, isDisliked = False, likesCount = 3, dislikesCount = 1\<rparr>
     \<and> cards loaded (MyPosts, 1)
         = Some \<lparr>isLiked = False, isDisliked = False, likesCount = 3, dislikesCount = 1\<rparr>
     \<and> cards a' (Feed, 1)
         = Some \<lparr>isLiked = True, isDisliked = False, likesCount = 4, dislikesCount = 1\<rparr>
     \<and> cards a' (MyPosts, 1)
         = Some \<lparr>isLiked = False, isDisliked = False, likesCount = 3, dislikesCount = 1\<rparr>
     \<and> dash a' = dash loaded"
proof -
  let ?c = "\<lparr>isLiked = False, isDisliked = False, likesCount = 3, dislikesCount = 1\<rparr>"
  have c: "cards loaded (Feed, 1) = Some ?c"
    by (simp add: loaded_def PostCard_init_def post_1_def)
  have m: "cards loaded (MyPosts, 1) = Some ?c"
    by (simp add: loaded_def PostCard_init_def post_1_def)
  have "\<not> Option.is_none (run 5 (map (Press Feed 1) [LikeButton]) loaded)"
    by (simp add: step_press [OF rendered_loaded c])
  then obtain a' where a': "run 5 (map (Press Feed 1) [LikeButton]) loaded = Some a'"
    by (auto simp: Option.is_none_def)
  from C10_cards_are_independent [OF rendered_loaded a'] c m
  have "cards a' (MyPosts, 1) = Some ?c"
    and "cards a' (Feed, 1)
         = Some \<lparr>isLiked = True, isDisliked = False, likesCount = 4, dislikesCount = 1\<rparr>"
    and "dash a' = dash loaded"
    by (simp_all add: click_def handleLike_defs js_add_exact)
  with rendered_loaded a' c m show ?thesis
    by blast
qed

section \<open>Upload staging\<close>

text \<open>
  Claim C8. The three handlers that stage a picked file (the profile picture of Signup
  and of Profile, the image of a new post) accept the three media kinds
  \<^verbatim>\<open>image/jpeg\<close>, \<^verbatim>\<open>image/png\<close>, \<^verbatim>\<open>image/gif\<close> and nothing else: a file of another kind
  is rejected with the message for an unsupported kind and nothing is staged. A file of a
  supported kind over 5 MiB is rejected by the profile picture handlers, and one over
  10 MiB by the post image handler, with the message for a file too large. A file of a
  supported kind within the limit is accepted: it is stored in the draft
  (\<^verbatim>\<open>formData.profile_picture\<close>, \<^verbatim>\<open>editData.profile_picture\<close>, \<^verbatim>\<open>newPost.image\<close>) and handed
  to the reader for the preview; the next create call carries it.
\<close>

theorem C8_upload_staging:
  "validTypes = [''image/jpeg'', ''image/png'', ''image/gif'']
   \<and> (type_file f \<notin> set validTypes \<longrightarrow>
        handleFileChange (Some f) s =
          (s\<lparr>errors := (errors s)(''profile_picture'' \<mapsto>
               ''Please upload a valid image file (JPG, PNG, GIF)'')\<rparr>, None)
      \<and> handlePictureChange (Some f) t =
          (t\<lparr>errors_profile := [''profile_picture'' \<mapsto> ''Invalid file type'']\<rparr>, None)
      \<and> handlePostImageChange (Some f) a =
          a\<lparr>dash := (dash a)
            \<lparr>createError := Some ''Invalid image format. Use JPG, PNG, or GIF.''\<rparr>\<rparr>)
   \<and> (type_file f \<in> set validTypes \<and> 5 * 1024 * 1024 < size_file f \<longrightarrow>
        handleFileChange (Some f) s =
          (s\<lparr>errors := (errors s)(''profile_picture'' \<mapsto>
               ''File size must be less than 5MB'')\<rparr>, None)
      \<and> handlePictureChange (Some f) t =
          (t\<lparr>errors_profile := [''profile_picture'' \<mapsto> ''File too large (max 5MB)'']\<rparr>,
           None))
   \<and> (type_file f \<in> set validTypes \<and> 10 * 1024 * 1024 < size_file f \<longrightarrow>
        handlePostImageChange (Some f) a =
          a\<lparr>dash := (dash a)\<lparr>createError := Some ''Image must be less than 10MB''\<rparr>\<rparr>)
   \<and> (type_file f \<in> set validTypes \<and> size_file f \<le> 5 * 1024 * 1024 \<longrightarrow>
        handleFileChange (Some f) s =
          (s\<lparr>formData := (formData s)(''profile_picture'' \<mapsto> File f)\<rparr>, Some f)
      \<and> handlePictureChange (Some f) t =
          (t\<lparr>editData := (editData t)(''profile_picture'' \<mapsto> File f)\<rparr>, Some f))
   \<and> (type_file f \<in> set validTypes \<and> size_file f \<le> 10 * 1024 * 1024 \<longrightarrow>
        handlePostImageChange (Some f) a =
          a\<lparr>dash := (dash a)\<lparr>newPost := (newPost (dash a))\<lparr>image_draft := Some f\<rparr>\<rparr>,
            pending := pending a @ [(ReadAsDataURL f, Onloadend_k)]\<rparr>
      \<and> (trim (description_draft (newPost (dash a))) \<noteq> [] \<longrightarrow>
           fst (last (pending (handleCreatePost (handlePostImageChange (Some f) a))))
           = CreatePost ((newPost (dash a))\<lparr>image_draft := Some f\<rparr>)))"
proof -
  have v: "validTypes = [''image/jpeg'', ''image/png'', ''image/gif'']"
    by (simp add: validTypes_def)
  have bad: "handleFileChange (Some f) s =
          (s\<lparr>errors := (errors s)(''profile_picture'' \<mapsto>
               ''Please upload a valid image file (JPG, PNG, GIF)'')\<rparr>, None)
      \<and> handlePictureChange (Some f) t =
          (t\<lparr>errors_profile := [''profile_picture'' \<mapsto> ''Invalid file type'']\<rparr>, None)
      \<and> handlePostImageChange (Some f) a =
          a\<lparr>dash := (dash a)
            \<lparr>createError := Some ''Invalid image format. Use JPG, PNG, or GIF.''\<rparr>\<rparr>"
    if "type_file f \<notin> set validTypes"
    using that
    by (simp add: handleFileChange_def handlePictureChange_def handlePostImageChange_def)
  have big5: "handleFileChange (Some f) s =
          (s\<lparr>errors := (errors s)(''profile_picture'' \<mapsto>
               ''File size must be less than 5MB'')\<rparr>, None)
      \<and> handlePictureChange (Some f) t =
          (t\<lparr>errors_profile := [''profile_picture'' \<mapsto> ''File too large (max 5MB)'']\<rparr>,
           None)"
    if "type_file f \<in> set validTypes" and "5 * 1024 * 1024 < size_file f"
    using that by (simp add: handleFileChange_def handlePictureChange_def)
  have big10: "handlePostImageChange (Some f) a =
          a\<lparr>dash := (dash a)\<lparr>createError := Some ''Image must be less than 10MB''\<rparr>\<rparr>"
    if "type_file f \<in> set validTypes" and "10 * 1024 * 1024 < size_file f"
    using that by (simp add: handlePostImageChange_def)
  have ok5: "handleFileChange (Some f) s =
          (s\<lparr>formData := (formData s)(''profile_picture'' \<mapsto> File f)\<rparr>, Some f)
      \<and> handlePictureChange (Some f) t =
          (t\<lparr>editData := (editData t)(''profile_picture'' \<mapsto> File f)\<rparr>, Some f)"
    if "type_file f \<in> set validTypes" and "size_file f \<le> 5 * 1024 * 1024"
    using that by (simp add: handleFileChange_def handlePictureChange_def)
  have ok10: "handlePostImageChange (Some f) a =
          a\<lparr>dash := (dash a)\<lparr>newPost := (newPost (dash a))\<lparr>image_draft := Some f\<rparr>\<rparr>,
            pending := pending a @ [(ReadAsDataURL f, Onloadend_k)]\<rparr>"
    if "type_file f \<in> set validTypes" and "size_file f \<le> 10 * 1024 * 1024"
    using that by (simp add: handlePostImageChange_def)
  have sent: "fst (last (pending (handleCreatePost (handlePostImageChange (Some f) a))))
           = CreatePost ((newPost (dash a))\<lparr>image_draft := Some f\<rparr>)"
    if "type_file f \<in> set validTypes" and "size_file f \<le> 10 * 1024 * 1024"
      and "trim (description_draft (newPost (dash a))) \<noteq> []"
    using that(3) unfolding ok10 [OF that(1,2)]
    by (simp add: handleCreatePost_def)
  from v bad big5 big10 ok5 ok10 sent show ?thesis
    by blast
qed

theorem C8_upload_staging_witness:
  "type_file pdf_file \<notin> set validTypes
   \<and> image_draft (newPost (dash (handlePostImageChange (Some pdf_file) drafted))) = None
   \<and> createError (dash (handlePostImageChange (Some pdf_file) drafted))
       = Some ''Invalid image format. Use JPG, PNG, or GIF.''
   \<and> type_file jpeg_file \<in> set validTypes
   \<and> 5 * 1024 * 1024 < size_file jpeg_file
   \<and> size_file jpeg_file \<le> 10 * 1024 * 1024
   \<and> handleFileChange (Some jpeg_file) \<lparr>formData = Map.empty, errors = Map.empty\<rparr>
       = (\<lparr>formData = Map.empty,
           errors = [''profile_picture'' \<mapsto> ''File size must be less than 5MB'']\<rparr>, None)
   \<and> image_draft (newPost (dash (handlePostImageChange (Some jpeg_file) drafted)))
       = Some jpeg_file
   \<and> fst (last (pending (handleCreatePost (handlePostImageChange (Some jpeg_file) drafted))))
       = CreatePost \<lparr>description_draft = hello, image_draft = Some jpeg_file\<rparr>
   \<and> 10 * 1024 * 1024 < size_file gif_file
   \<and> createError (dash (handlePostImageChange (Some gif_file) drafted))
       = Some ''Image must be less than 10MB''
   \<and> size_file png_file \<le> 5 * 1024 * 1024
   \<and> handleFileChange (Some png_file) \<lparr>formData = Map.empty, errors = Map.empty\<rparr>
       = (\<lparr>formData = [''profile_picture'' \<mapsto> File png_file], errors = Map.empty\<rparr>,
          Some png_file)"
proof -
  let ?s = "\<lparr>formData = Map.empty, errors = Map.empty\<rparr>"
  let ?t = "\<lparr>editData = Map.empty, errors_profile = Map.empty\<rparr>"
  have d: "trim (description_draft (newPost (dash drafted))) \<noteq> []"
    and n: "image_draft (newPost (dash drafted)) = None"
    and nd: "newPost (dash drafted) = \<lparr>description_draft = hello, image_draft = None\<rparr>"
    by (simp_all add: drafted_def handlePostInputChange_def init_def trim_def is_space_def
          hello_def)
  have pdf: "type_file pdf_file \<notin> set validTypes"
    by (simp add: pdf_file_def validTypes_def)
  have jpeg: "type_file jpeg_file \<in> set validTypes" "5 * 1024 * 1024 < size_file jpeg_file"
    "size_file jpeg_file \<le> 10 * 1024 * 1024"
    by (simp_all add: jpeg_file_def validTypes_def)
  have gif: "type_file gif_file \<in> set validTypes" "10 * 1024 * 1024 < size_file gif_file"
    by (simp_all add: gif_file_def validTypes_def)
  have png: "type_file png_file \<in> set validTypes" "size_file png_file \<le> 5 * 1024 * 1024"
    by (simp_all add: png_file_def validTypes_def)
  from C8_upload_staging [of pdf_file ?s ?t drafted] pdf
  have "handlePostImageChange (Some pdf_file) drafted =
      drafted\<lparr>dash := (dash drafted)
        \<lparr>createError := Some ''Invalid image format. Use JPG, PNG, or GIF.''\<rparr>\<rparr>"
    by blast
  then have 1: "image_draft (newPost (dash (handlePostImageChange (Some pdf_file) drafted))) = None"
    and 2: "createError (dash (handlePostImageChange (Some pdf_file) drafted))
       = Some ''Invalid image format. Use JPG, PNG, or GIF.''"
    using n by simp_all
  from C8_upload_staging [of jpeg_file ?s ?t drafted] jpeg d
  have "handleFileChange (Some jpeg_file) ?s
       = (?s\<lparr>errors := (errors ?s)(''profile_picture'' \<mapsto>
               ''File size must be less than 5MB'')\<rparr>, None)"
    and j2: "handlePostImageChange (Some jpeg_file) drafted =
          drafted\<lparr>dash := (dash drafted)
              \<lparr>newPost := (newPost (dash drafted))\<lparr>image_draft := Some jpeg_file\<rparr>\<rparr>,
            pending := pending drafted @ [(ReadAsDataURL jpeg_file, Onloadend_k)]\<rparr>"
    and j3: "fst (last (pending (handleCreatePost (handlePostImageChange (Some jpeg_file) drafted))))
           = CreatePost ((newPost (dash drafted))\<lparr>image_draft := Some jpeg_file\<rparr>)"
    by blast+
  then have 3: "handleFileChange (Some jpeg_file) ?s
       = (\<lparr>formData = Map.empty,
           errors = [''profile_picture'' \<mapsto> ''File size must be less than 5MB'']\<rparr>, None)"
    by simp
  from j2 have 4: "image_draft (newPost (dash (handlePostImageChange (Some jpeg_file) drafted)))
       = Some jpeg_file"
    by simp
  from j3 nd have 5:
    "fst (last (pending (handleCreatePost (handlePostImageChange (Some jpeg_file) drafted))))
       = CreatePost \<lparr>description_draft = hello, image_draft = Some jpeg_file\<rparr>"
    by simp
  from C8_upload_staging [of gif_file ?s ?t drafted] gif
  have "handlePostImageChange (Some gif_file) drafted =
          drafted\<lparr>dash := (dash drafted)\<lparr>createError := Some ''Image must be less than 10MB''\<rparr>\<rparr>"
    by blast
  then have 6: "createError (dash (handlePostImageChange (Some gif_file) drafted))
       = Some ''Image must be less than 10MB''"
    by simp
  from C8_upload_staging [of png_file ?s ?t drafted] png
  have "handleFileChange (Some png_file) ?s =
          (?s\<lparr>formData := (formData ?s)(''profile_picture'' \<mapsto> File png_file)\<rparr>,
           Some png_file)"
    by blast
  then have 7: "handleFileChange (Some png_file) ?s
       = (\<lparr>formData = [''profile_picture'' \<mapsto> File png_file], errors = Map.empty\<rparr>,
          Some png_file)"
    by simp
  from pdf 1 2 jpeg 3 4 5 gif(2) 6 png(2) 7 show ?thesis
    by blast
qed

end
